theory Spec2Isabelle
  imports Main
begin

section \<open>JavaScript strings\<close>

text \<open>
  A JavaScript string is a sequence of UTF-16 code units, and \<open>length\<close>, the character
  classes of a regular expression and \<open>trim\<close> all work on code units. A code unit is
  modelled by its number, a string by the list of its code units; \<open>lit\<close> turns an ASCII
  literal of the source into such a list.
\<close>

type_synonym code_unit = nat
type_synonym jsstring = "code_unit list"

definition lit :: "string \<Rightarrow> jsstring" where
  "lit s = map of_char s"

definition line_terminator :: "code_unit \<Rightarrow> bool" where
  \<comment> \<open>LF, CR, LINE SEPARATOR, PARAGRAPH SEPARATOR: what \<open>.\<close> does not match\<close>
  "line_terminator c = (c = 10 \<or> c = 13 \<or> c = 8232 \<or> c = 8233)"

definition word_char :: "code_unit \<Rightarrow> bool" where
  \<comment> \<open>\<open>\w\<close> without the \<open>i\<close> and \<open>u\<close> flags: \<open>[A-Za-z0-9_]\<close>\<close>
  "word_char c = ((65 \<le> c \<and> c \<le> 90) \<or> (97 \<le> c \<and> c \<le> 122) \<or> (48 \<le> c \<and> c \<le> 57) \<or> c = 95)"

section \<open>Regular expressions with backtracking\<close>

text \<open>
  The fragment of ECMAScript regular expressions that \<open>getYouTubeVideoId\<close> uses: literal
  characters, \<open>.\<close>, \<open>\w\<close>, a negated class, sequence, alternation, the greedy star,
  capture groups and the anchor \<open>^\<close> (no flags).
\<close>

datatype re =
    Chr code_unit
  | Dot
  | WordCh
  | NoneOf "code_unit list"
  | Bol
  | Eps
  | Cat re re
  | Alt re re
  | Star re
  | Group nat re

text \<open>
  A matcher state: the index reached in the input, the input from that index on, and
  the captures recorded so far.
\<close>

type_synonym captures = "nat \<rightharpoonup> jsstring"
type_synonym mstate = "nat \<times> jsstring \<times> captures"

definition rest_of :: "mstate \<Rightarrow> jsstring" where
  "rest_of st = fst (snd st)"

definition one_unit :: "(code_unit \<Rightarrow> bool) \<Rightarrow> mstate \<Rightarrow> mstate list" where
  "one_unit P st =
     (case st of (i, s, g) \<Rightarrow>
        (case s of [] \<Rightarrow> [] | c # t \<Rightarrow> if P c then [(Suc i, t, g)] else []))"

text \<open>
  The greedy star over a matcher \<open>f\<close>: first every way of running the body once more
  and then iterating on (in the body's own order), last the way that stops here. An
  iteration that consumes nothing is rejected, as ECMAScript's RepeatMatcher does. The
  captures of groups inside the body are not cleared at each iteration: the expression
  of this program has no group under a star.
\<close>

function star :: "(mstate \<Rightarrow> mstate list) \<Rightarrow> mstate \<Rightarrow> mstate list" where
  "star f st =
     concat (map (star f) (filter (\<lambda>st'. length (rest_of st') < length (rest_of st)) (f st)))
     @ [st]"
  by pat_completeness auto
termination
  by (relation "measure (\<lambda>(f, st). length (rest_of st))") auto

declare star.simps [simp del]

text \<open>
  \<open>rmatch r st\<close> lists the states in which a match of \<open>r\<close> begun in \<open>st\<close> can end, in
  the order in which the backtracking matcher tries them: its first element is where
  the matcher ends if what follows succeeds there, the next one where it ends after
  backtracking once, and so on.
\<close>

fun rmatch :: "re \<Rightarrow> mstate \<Rightarrow> mstate list" where
  "rmatch (Chr c) st = one_unit (\<lambda>x. x = c) st"
| "rmatch Dot st = one_unit (\<lambda>x. \<not> line_terminator x) st"
| "rmatch WordCh st = one_unit word_char st"
| "rmatch (NoneOf cs) st = one_unit (\<lambda>x. x \<notin> set cs) st"
| "rmatch Bol st = (case st of (i, s, g) \<Rightarrow> if i = 0 then [st] else [])"
| "rmatch Eps st = [st]"
| "rmatch (Cat a b) st = concat (map (rmatch b) (rmatch a st))"
| "rmatch (Alt a b) st = rmatch a st @ rmatch b st"
| "rmatch (Star a) st = star (rmatch a) st"
| "rmatch (Group n a) st =
     (case st of (i, s, g) \<Rightarrow>
        map (\<lambda>(j, t, h). (j, t, h(n \<mapsto> take (j - i) s))) (rmatch a st))"

text \<open>
  \<open>String.prototype.match\<close> with an expression without the \<open>g\<close> flag: the first index
  from which the expression matches, tried from index 0 upwards, and the captures of
  the first way it matches there; \<open>null\<close> (None) if there is no such index.
\<close>

fun exec_from :: "re \<Rightarrow> nat \<Rightarrow> jsstring \<Rightarrow> captures option" where
  "exec_from r i s =
     (case rmatch r (i, s, Map.empty) of
        st # _ \<Rightarrow> Some (snd (snd st))
      | [] \<Rightarrow> (case s of [] \<Rightarrow> None | _ # t \<Rightarrow> exec_from r (Suc i) t))"

definition js_match :: "jsstring \<Rightarrow> re \<Rightarrow> captures option" where
  "js_match s r = exec_from r 0 s"

definition seq :: "re list \<Rightarrow> re" where
  "seq rs = foldr Cat rs Eps"

definition alts :: "re \<Rightarrow> re list \<Rightarrow> re" where
  "alts r rs = foldl Alt r rs"

definition text_re :: "string \<Rightarrow> re" where
  "text_re s = seq (map Chr (lit s))"

section \<open>The video-id extractor\<close>

text \<open>
  \<^verbatim>\<open>/^.*(youtu.be\/|v\/|u\/\w\/|embed\/|watch\?v=|&v=)([^#&?]*).*/\<close>
\<close>

definition group1 :: re where
  \<comment> \<open>\<^verbatim>\<open>(youtu.be\/|v\/|u\/\w\/|embed\/|watch\?v=|&v=)\<close>\<close>
  "group1 = Group 1 (alts (seq [text_re ''youtu'', Dot, text_re ''be/''])
                 [text_re ''v/'',
                  seq [text_re ''u/'', WordCh, text_re ''/''],
                  text_re ''embed/'',
                  text_re ''watch?v='',
                  text_re ''&v=''])"

definition group2 :: re where
  \<comment> \<open>\<^verbatim>\<open>([^#&?]*)\<close>\<close>
  "group2 = Group 2 (Star (NoneOf (lit ''#&?'')))"

definition regExp :: re where
  "regExp = seq [Bol, Star Dot, group1, group2, Star Dot]"

text \<open>
  The argument is \<open>None\<close> for \<open>null\<close>. Group 2 takes part in every match of \<open>regExp\<close>
  (lemma \<open>regExp_group2\<close> below), so \<open>match[2]\<close> is never \<open>undefined\<close>.
\<close>

definition getYouTubeVideoId :: "jsstring option \<Rightarrow> jsstring option" where
  "getYouTubeVideoId url =
     (case url of
        None \<Rightarrow> None
      | Some u \<Rightarrow>
          if u = [] then None
          else (case js_match u regExp of
                  None \<Rightarrow> None
                | Some m \<Rightarrow>
                    (case m 2 of
                       None \<Rightarrow> None
                     | Some vid \<Rightarrow> if length vid = 11 then Some vid else None)))"


section \<open>JavaScript values\<close>

text \<open>
  The values the program reads out of a parsed JSON body, with \<open>undefined\<close> for what a
  missing property reads as. The program does no arithmetic on the numbers of a body: it
  compares a \<open>length\<close> with 0 and prints a number inside a message. A number is modelled
  by an integer, and a string that is converted to a number by a signed decimal integer.
  Fractions, exponents, and integers from \<open>10^21\<close> on (which JavaScript prints with an
  exponent) are outside the model; they are met only where a \<open>length\<close> member is not a
  number or a number is printed inside an error text. An object is the list of its
  members, each name once.
\<close>

datatype jsval =
    JUndefined
  | JNull
  | JBool bool
  | JNum int
  | JStr jsstring
  | JArr "jsval list"
  | JObj "(jsstring \<times> jsval) list"

datatype exn = TypeError | Error jsstring

text \<open>
  How an awaited promise settles: with a value, or rejected with an error whose
  \<open>message\<close> is the string (empty when the error carries none).
\<close>

datatype 'a settled = Resolved 'a | Rejected jsstring

fun truthy :: "jsval \<Rightarrow> bool" where
  "truthy JUndefined = False"
| "truthy JNull = False"
| "truthy (JBool b) = b"
| "truthy (JNum n) = (n \<noteq> 0)"
| "truthy (JStr s) = (s \<noteq> [])"
| "truthy (JArr xs) = True"
| "truthy (JObj kvs) = True"

text \<open>
  \<open>read_prop v name\<close> is \<open>v.name\<close> for the names the program reads (\<open>candidates\<close>,
  \<open>content\<close>, \<open>parts\<close>, \<open>text\<close>, \<open>error\<close>, \<open>message\<close>, \<open>length\<close>; none is an
  array index), \<open>at0 v\<close> is \<open>v[0]\<close>. Reading a property of \<open>null\<close> or \<open>undefined\<close>
  throws a TypeError.
\<close>

fun read_prop :: "jsval \<Rightarrow> jsstring \<Rightarrow> exn + jsval" where
  "read_prop JUndefined name = Inl TypeError"
| "read_prop JNull name = Inl TypeError"
| "read_prop (JObj kvs) name = Inr (case map_of kvs name of Some v \<Rightarrow> v | None \<Rightarrow> JUndefined)"
| "read_prop (JArr xs) name = Inr (if name = lit ''length'' then JNum (int (length xs)) else JUndefined)"
| "read_prop (JStr s) name = Inr (if name = lit ''length'' then JNum (int (length s)) else JUndefined)"
| "read_prop (JBool b) name = Inr JUndefined"
| "read_prop (JNum n) name = Inr JUndefined"

fun at0 :: "jsval \<Rightarrow> exn + jsval" where
  "at0 JUndefined = Inl TypeError"
| "at0 JNull = Inl TypeError"
| "at0 (JArr xs) = Inr (case xs of [] \<Rightarrow> JUndefined | x # _ \<Rightarrow> x)"
| "at0 (JStr s) = Inr (case s of [] \<Rightarrow> JUndefined | c # _ \<Rightarrow> JStr [c])"
| "at0 (JObj kvs) = Inr (case map_of kvs (lit ''0'') of Some v \<Rightarrow> v | None \<Rightarrow> JUndefined)"
| "at0 (JBool b) = Inr JUndefined"
| "at0 (JNum n) = Inr JUndefined"

definition opt_prop :: "jsval \<Rightarrow> jsstring \<Rightarrow> jsval" where
  \<comment> \<open>\<open>v?.name\<close>\<close>
  "opt_prop v name =
     (case v of
        JUndefined \<Rightarrow> JUndefined
      | JNull \<Rightarrow> JUndefined
      | _ \<Rightarrow> (case read_prop v name of Inr x \<Rightarrow> x | Inl _ \<Rightarrow> JUndefined))"

definition and_then :: "exn + 'a \<Rightarrow> ('a \<Rightarrow> exn + 'b) \<Rightarrow> exn + 'b" where
  "and_then r f = (case r of Inl e \<Rightarrow> Inl e | Inr x \<Rightarrow> f x)"

definition js_whitespace :: "code_unit \<Rightarrow> bool" where
  \<comment> \<open>WhiteSpace and LineTerminator of ECMAScript, what \<open>trim\<close> strips\<close>
  "js_whitespace c =
     (c \<in> {9, 10, 11, 12, 13, 32, 160, 5760, 8232, 8233, 8239, 8287, 12288, 65279}
      \<or> (8192 \<le> c \<and> c \<le> 8202))"

definition trim :: "jsstring \<Rightarrow> jsstring" where
  "trim s = rev (dropWhile js_whitespace (rev (dropWhile js_whitespace s)))"

definition startsWith :: "jsstring \<Rightarrow> jsstring \<Rightarrow> bool" where
  "startsWith s p = (take (length p) s = p)"

function show_nat :: "nat \<Rightarrow> jsstring" where
  "show_nat n = (if n < 10 then [48 + n] else show_nat (n div 10) @ [48 + n mod 10])"
  by pat_completeness auto
termination
  by (relation "measure id") auto

declare show_nat.simps [simp del]

definition show_int :: "int \<Rightarrow> jsstring" where
  "show_int i = (if i < 0 then 45 # show_nat (nat (- i)) else show_nat (nat i))"

fun join :: "jsstring \<Rightarrow> jsstring list \<Rightarrow> jsstring" where
  "join sep [] = []"
| "join sep [x] = x"
| "join sep (x # y # ys) = x @ sep @ join sep (y # ys)"

text \<open>\<open>String(v)\<close>, what a template literal puts in place of \<open>${v}\<close>.\<close>

fun to_string :: "jsval \<Rightarrow> jsstring" where
  "to_string JUndefined = lit ''undefined''"
| "to_string JNull = lit ''null''"
| "to_string (JBool b) = (if b then lit ''true'' else lit ''false'')"
| "to_string (JNum n) = show_int n"
| "to_string (JStr s) = s"
| "to_string (JArr xs) =
     join (lit '','')
       (map (\<lambda>x. if x = JNull \<or> x = JUndefined then [] else to_string x) xs)"
| "to_string (JObj kvs) = lit ''[object Object]''"

text \<open>
  \<open>Number(v)\<close> where the program compares \<open>v > 0\<close>; None is NaN. Of the numeric
  strings only signed decimal integers are read.
\<close>

definition digits_value :: "jsstring \<Rightarrow> int option" where
  "digits_value s =
     (if s \<noteq> [] \<and> (\<forall>c\<in>set s. 48 \<le> c \<and> c \<le> 57)
      then Some (foldl (\<lambda>a c. 10 * a + int (c - 48)) 0 s) else None)"

definition string_to_number :: "jsstring \<Rightarrow> int option" where
  "string_to_number s =
     (case trim s of
        [] \<Rightarrow> Some 0
      | c # t \<Rightarrow>
          if c = 45 then map_option uminus (digits_value t)
          else if c = 43 then digits_value t
          else digits_value (c # t))"

fun to_number :: "jsval \<Rightarrow> int option" where
  "to_number JUndefined = None"
| "to_number JNull = Some 0"
| "to_number (JBool b) = Some (if b then 1 else 0)"
| "to_number (JNum n) = Some n"
| "to_number (JStr s) = string_to_number s"
| "to_number (JArr xs) = string_to_number (to_string (JArr xs))"
| "to_number (JObj kvs) = None"

definition gt0 :: "jsval \<Rightarrow> bool" where
  \<comment> \<open>\<open>v > 0\<close>\<close>
  "gt0 v = (case to_number v of None \<Rightarrow> False | Some n \<Rightarrow> 0 < n)"

section \<open>The state of the component\<close>

datatype firestore = Firestore

text \<open>A document of the collection as the snapshot listener stores it: \<open>{id, ...data}\<close>.\<close>

datatype link = Link (link_id: jsstring) (link_url: jsstring) (link_title: jsstring)
  (link_videoId: jsstring) (link_summary: jsval)

record app_state =
  db :: "firestore option"
  userId :: "jsstring option"
  isAuthReady :: bool
  links :: "link list"
  newLinkUrl :: jsstring
  newLinkTitle :: jsstring
  isLoading :: bool
  error :: jsstring
  showAddForm :: bool
  summaries :: "jsstring \<rightharpoonup> jsval"
  isSummarizing :: "jsstring \<rightharpoonup> bool"

text \<open>
  The calls the component issues to the document store. The document that \<open>addDoc\<close>
  writes has the fields \<open>url\<close>, \<open>title\<close>, \<open>videoId\<close>, \<open>userId\<close>, \<open>summary\<close> and
  \<open>addedAt\<close>, the last one always \<open>serverTimestamp()\<close>.
\<close>

datatype new_link = NewLink (doc_url: jsstring) (doc_title: jsstring) (doc_videoId: jsstring)
  (doc_userId: jsstring) (doc_summary: jsval)

datatype store_call =
    AddDoc jsstring new_link
  | DeleteDoc jsstring
  | UpdateDoc jsstring jsval

datatype subscription = OrderedQuery jsstring jsstring jsstring

definition linksCollectionPath :: "jsstring \<Rightarrow> jsstring \<Rightarrow> jsstring" where
  "linksCollectionPath appId uid =
     lit ''artifacts/'' @ appId @ lit ''/users/'' @ uid @ lit ''/laterTubeLinks''"

definition linkDocPath :: "jsstring \<Rightarrow> jsstring \<Rightarrow> jsstring \<Rightarrow> jsstring" where
  "linkDocPath appId uid linkId =
     lit ''artifacts/'' @ appId @ lit ''/users/'' @ uid @ lit ''/laterTubeLinks/'' @ linkId"

text \<open>
  The guard \<open>if (!db || !userId)\<close> of the three handlers: \<open>session st\<close> is the user
  identifier when the guard lets the handler through.
\<close>

definition session :: "app_state \<Rightarrow> jsstring option" where
  "session st =
     (case db st of
        None \<Rightarrow> None
      | Some _ \<Rightarrow>
          (case userId st of
             None \<Rightarrow> None
           | Some uid \<Rightarrow> if uid = [] then None else Some uid))"

section \<open>The live subscription\<close>

definition links_effect :: "jsstring \<Rightarrow> app_state \<Rightarrow> app_state \<times> subscription option" where
  "links_effect appId st =
     (if isAuthReady st then
        (case session st of
           Some uid \<Rightarrow>
             (st\<lparr>isLoading := True\<rparr>,
              Some (OrderedQuery (linksCollectionPath appId uid) (lit ''addedAt'') (lit ''desc'')))
         | None \<Rightarrow>
             (case userId st of
                Some (c # cs) \<Rightarrow> (st, None)
              | _ \<Rightarrow> (st\<lparr>isLoading := False\<rparr>, None)))
      else (st, None))"

definition initialSummaries :: "link list \<Rightarrow> (jsstring \<rightharpoonup> jsval)" where
  "initialSummaries fetchedLinks =
     foldl (\<lambda>m l. if truthy (link_summary l) then m(link_id l \<mapsto> link_summary l) else m)
       Map.empty fetchedLinks"

definition onSnapshot_next :: "app_state \<Rightarrow> link list \<Rightarrow> app_state" where
  "onSnapshot_next st fetchedLinks =
     st\<lparr>links := fetchedLinks,
        summaries := summaries st ++ initialSummaries fetchedLinks,
        isLoading := False,
        error := []\<rparr>"

definition onSnapshot_error :: "app_state \<Rightarrow> app_state" where
  "onSnapshot_error st =
     st\<lparr>error := lit ''Failed to load links. Please check your connection or try again later.'',
        isLoading := False\<rparr>"

section \<open>Adding and deleting a link\<close>

text \<open>
  A handler returns the state it leaves and the store calls it issued. How the awaited
  store call settles is an argument; a call that throws before it is sent settles as
  rejected. Every update of the source is a functional update of the current state, and
  a run is taken with no other event between its start and the settling of its call.
\<close>

definition handleAddLink ::
  "jsstring \<Rightarrow> app_state \<Rightarrow> unit settled \<Rightarrow> app_state \<times> store_call list" where
  "handleAddLink appId st addDoc_result =
     (if trim (newLinkUrl st) = [] \<or> trim (newLinkTitle st) = [] then
        (st\<lparr>error := lit ''Both URL and Title are required.''\<rparr>, [])
      else
        (case session st of
           None \<Rightarrow> (st\<lparr>error := lit ''Database not ready or user not authenticated.''\<rparr>, [])
         | Some uid \<Rightarrow>
             (case getYouTubeVideoId (Some (newLinkUrl st)) of
                None \<Rightarrow>
                  (st\<lparr>error := lit ''Invalid YouTube URL. Please enter a valid YouTube video link.''\<rparr>, [])
              | Some videoId \<Rightarrow>
                  if videoId = [] then
                    (st\<lparr>error := lit ''Invalid YouTube URL. Please enter a valid YouTube video link.''\<rparr>, [])
                  else
                    (let st1 = st\<lparr>error := []\<rparr>;
                         call = AddDoc (linksCollectionPath appId uid)
                                  (NewLink (newLinkUrl st) (newLinkTitle st) videoId uid JNull)
                     in case addDoc_result of
                          Resolved _ \<Rightarrow>
                            (st1\<lparr>newLinkUrl := [], newLinkTitle := [], showAddForm := False\<rparr>, [call])
                        | Rejected _ \<Rightarrow>
                            (st1\<lparr>error := lit ''Failed to add link. Please try again.''\<rparr>, [call])))))"

definition handleDeleteLink ::
  "jsstring \<Rightarrow> app_state \<Rightarrow> jsstring \<Rightarrow> unit settled \<Rightarrow> app_state \<times> store_call list" where
  "handleDeleteLink appId st linkId deleteDoc_result =
     (case session st of
        None \<Rightarrow> (st\<lparr>error := lit ''Database not ready or user not authenticated.''\<rparr>, [])
      | Some uid \<Rightarrow>
          (let st1 = st\<lparr>error := []\<rparr>;
               call = DeleteDoc (linkDocPath appId uid linkId)
           in case deleteDoc_result of
                Resolved _ \<Rightarrow> (st1\<lparr>summaries := (summaries st1)(linkId := None)\<rparr>, [call])
              | Rejected _ \<Rightarrow>
                  (st1\<lparr>error := lit ''Failed to delete link. Please try again.''\<rparr>, [call])))"

section \<open>Requesting a summary\<close>

text \<open>
  What the outside world answers during one run of \<open>handleGetSummary\<close>: how \<open>fetch\<close>
  settles, how \<open>updateDoc\<close> settles if it is called, and the message text the engine
  gives its TypeError.
\<close>

record response =
  ok :: bool
  status :: nat
  json :: "jsval settled"

record summary_env =
  fetch_result :: "response settled"
  updateDoc_result :: "unit settled"
  type_error_message :: jsstring

definition message :: "summary_env \<Rightarrow> exn \<Rightarrow> jsstring" where
  "message env e = (case e of TypeError \<Rightarrow> type_error_message env | Error m \<Rightarrow> m)"

definition generating :: jsstring where
  \<comment> \<open>the placeholder: U+2728 SPARKLES, then \<open>" Generating summary..."\<close>\<close>
  "generating = 10024 # lit '' Generating summary...''"

definition prompt :: "jsstring \<Rightarrow> jsstring \<Rightarrow> jsstring" where
  "prompt linkTitle linkUrl =
     lit ''Based on the title and URL, provide a concise, one to two-sentence speculative summary of what the YouTube video titled ''
     @ [34] @ linkTitle @ [34] @ lit '' (URL: '' @ linkUrl
     @ lit '') might be about. Focus on the likely main topic or purpose. If you cannot make a reasonable inference, say so.''"

text \<open>
  The condition of line 252:
  \<^verbatim>\<open>result.candidates && result.candidates.length > 0 && result.candidates[0].content &&
  result.candidates[0].content.parts && result.candidates[0].content.parts.length > 0\<close>
\<close>

definition has_text :: "jsval \<Rightarrow> exn + bool" where
  "has_text result =
     and_then (read_prop result (lit ''candidates'')) (\<lambda>candidates.
     if \<not> truthy candidates then Inr False else
     and_then (read_prop candidates (lit ''length'')) (\<lambda>n.
     if \<not> gt0 n then Inr False else
     and_then (at0 candidates) (\<lambda>candidate.
     and_then (read_prop candidate (lit ''content'')) (\<lambda>content.
     if \<not> truthy content then Inr False else
     and_then (read_prop content (lit ''parts'')) (\<lambda>parts.
     if \<not> truthy parts then Inr False else
     and_then (read_prop parts (lit ''length'')) (\<lambda>m. Inr (gt0 m)))))))"

definition first_text :: "jsval \<Rightarrow> exn + jsval" where
  \<comment> \<open>\<open>result.candidates[0].content.parts[0].text\<close>\<close>
  "first_text result =
     and_then (read_prop result (lit ''candidates'')) (\<lambda>candidates.
     and_then (at0 candidates) (\<lambda>candidate.
     and_then (read_prop candidate (lit ''content'')) (\<lambda>content.
     and_then (read_prop content (lit ''parts'')) (\<lambda>parts.
     and_then (at0 parts) (\<lambda>part.
     read_prop part (lit ''text''))))))"

text \<open>
  The body of \<open>try\<close>: the exception it throws if any, the state it leaves, the state
  that is rendered while \<open>updateDoc\<close> is pending if it got that far, and the store
  calls it issued.
\<close>

record try_outcome =
  thrown :: "exn option"
  left :: app_state
  pending :: "app_state option"
  issued :: "store_call list"

definition throws :: "exn \<Rightarrow> app_state \<Rightarrow> try_outcome" where
  "throws e st = \<lparr>thrown = Some e, left = st, pending = None, issued = []\<rparr>"

definition summary_try ::
  "jsstring \<Rightarrow> jsstring \<Rightarrow> jsstring \<Rightarrow> summary_env \<Rightarrow> app_state \<Rightarrow> try_outcome" where
  "summary_try appId uid linkId env st =
     (case fetch_result env of
        Rejected m \<Rightarrow> throws (Error m) st
      | Resolved response \<Rightarrow>
          if \<not> ok response then
            (case json response of
               Rejected m \<Rightarrow> throws (Error m) st
             | Resolved errorData \<Rightarrow>
                 throws (Error (lit ''API request failed with status '' @ show_nat (status response)
                   @ lit '': ''
                   @ to_string
                       (let m = opt_prop (opt_prop errorData (lit ''error'')) (lit ''message'')
                        in if truthy m then m else JStr (lit ''Unknown error'')))) st)
          else
            (case json response of
               Rejected m \<Rightarrow> throws (Error m) st
             | Resolved result \<Rightarrow>
                 (case has_text result of
                    Inl e \<Rightarrow> throws e st
                  | Inr True \<Rightarrow>
                      (case first_text result of
                         Inl e \<Rightarrow> throws e st
                       | Inr textSummary \<Rightarrow>
                           (let st2 = st\<lparr>summaries := (summaries st)(linkId \<mapsto> textSummary)\<rparr>;
                                call = UpdateDoc (linkDocPath appId uid linkId) textSummary
                            in case updateDoc_result env of
                                 Resolved _ \<Rightarrow>
                                   \<lparr>thrown = None, left = st2, pending = Some st2, issued = [call]\<rparr>
                               | Rejected m \<Rightarrow>
                                   \<lparr>thrown = Some (Error m), left = st2, pending = Some st2,
                                    issued = [call]\<rparr>))
                  | Inr False \<Rightarrow>
                      \<lparr>thrown = None,
                       left = st\<lparr>summaries := (summaries st)
                                (linkId \<mapsto> JStr (lit ''Could not generate summary (unexpected response).''))\<rparr>,
                       pending = None, issued = []\<rparr>)))"

definition summary_catch :: "summary_env \<Rightarrow> jsstring \<Rightarrow> exn \<Rightarrow> app_state \<Rightarrow> app_state" where
  "summary_catch env linkId err st =
     st\<lparr>summaries := (summaries st)
          (linkId \<mapsto> JStr (lit ''Error: ''
             @ (if message env err \<noteq> [] then message env err else lit ''Failed to get summary.'')))\<rparr>"

definition summary_finally :: "jsstring \<Rightarrow> app_state \<Rightarrow> app_state" where
  "summary_finally linkId st = st\<lparr>isSummarizing := (isSummarizing st)(linkId \<mapsto> False)\<rparr>"

text \<open>
  One run of \<open>handleGetSummary\<close>: the state once its synchronous part has run (what is
  rendered while the request is pending), the state rendered while \<open>updateDoc\<close> is
  pending if it was called, the state once the run has settled, the prompts sent to the
  generation endpoint and the store calls issued.
\<close>

record summary_run =
  at_trigger :: app_state
  at_update :: "app_state option"
  at_settle :: app_state
  prompts :: "jsstring list"
  store_calls :: "store_call list"

definition handleGetSummary ::
  "jsstring \<Rightarrow> app_state \<Rightarrow> jsstring \<Rightarrow> jsstring \<Rightarrow> jsstring \<Rightarrow> summary_env \<Rightarrow> summary_run" where
  "handleGetSummary appId st linkId linkTitle linkUrl env =
     (case session st of
        None \<Rightarrow>
          (let st' = st\<lparr>error := lit ''Database not ready or user not authenticated for summary.''\<rparr>
           in \<lparr>at_trigger = st', at_update = None, at_settle = st', prompts = [], store_calls = []\<rparr>)
      | Some uid \<Rightarrow>
          (let st1 = st\<lparr>isSummarizing := (isSummarizing st)(linkId \<mapsto> True),
                        summaries := (summaries st)(linkId \<mapsto> JStr generating)\<rparr>;
               t = summary_try appId uid linkId env st1;
               st3 = (case thrown t of
                        None \<Rightarrow> left t
                      | Some err \<Rightarrow> summary_catch env linkId err (left t))
           in \<lparr>at_trigger = st1, at_update = pending t, at_settle = summary_finally linkId st3,
               prompts = [prompt linkTitle linkUrl], store_calls = issued t\<rparr>))"

section \<open>What a card renders\<close>

definition summarizing :: "app_state \<Rightarrow> jsstring \<Rightarrow> bool" where
  \<comment> \<open>\<open>isSummarizing[link.id]\<close> as a condition\<close>
  "summarizing st linkId = (case isSummarizing st linkId of Some b \<Rightarrow> b | None \<Rightarrow> False)"

definition summary_of :: "app_state \<Rightarrow> jsstring \<Rightarrow> jsval" where
  \<comment> \<open>\<open>summaries[link.id]\<close>\<close>
  "summary_of st linkId = (case summaries st linkId of Some v \<Rightarrow> v | None \<Rightarrow> JUndefined)"

definition summary_block :: "app_state \<Rightarrow> jsstring \<Rightarrow> jsval option" where
  \<comment> \<open>the text of the summary block, None when the block is not rendered\<close>
  "summary_block st linkId =
     (if truthy (summary_of st linkId) then Some (summary_of st linkId) else None)"

text \<open>
  The label of the summarize button (line 438). A summary that is truthy and not a
  string has no \<open>startsWith\<close>: rendering throws.
\<close>

definition trigger_label :: "app_state \<Rightarrow> jsstring \<Rightarrow> exn + jsstring" where
  "trigger_label st linkId =
     (if summarizing st linkId then Inr (lit ''Getting Summary...'')
      else if truthy (summary_of st linkId) \<and> summary_of st linkId \<noteq> JStr generating then
        (case summary_of st linkId of
           JStr s \<Rightarrow>
             if \<not> startsWith s (lit ''Error:'') then Inr (lit ''Regenerate Summary'')
             else Inr (lit ''Get Summary'')
         | _ \<Rightarrow> Inl TypeError)
      else Inr (lit ''Get Summary''))"

definition trigger_disabled :: "app_state \<Rightarrow> jsstring \<Rightarrow> bool" where
  "trigger_disabled st linkId = summarizing st linkId"

definition delete_disabled :: "app_state \<Rightarrow> jsstring \<Rightarrow> bool" where
  "delete_disabled st linkId = (isLoading st \<or> summarizing st linkId)"

section \<open>What the extractor's expression matches\<close>

text \<open>
  The notions in which the extractor's result is stated: the characters of an id segment
  (those the class \<open>[^#&?]\<close> admits), a text on the first line of the input (what \<open>.*\<close>
  can run over), and a marker, one of the texts that group 1 of \<open>regExp\<close> matches.
\<close>

definition id_char :: "code_unit \<Rightarrow> bool" where
  "id_char c = (c \<notin> set (lit ''#&?''))"

definition first_line :: "jsstring \<Rightarrow> bool" where
  "first_line pre = (\<forall>c\<in>set pre. \<not> line_terminator c)"

definition marker :: "jsstring \<Rightarrow> bool" where
  "marker m =
     ((\<exists>c. \<not> line_terminator c \<and> m = lit ''youtu'' @ [c] @ lit ''be/'')
      \<or> m = lit ''v/''
      \<or> (\<exists>c. word_char c \<and> m = lit ''u/'' @ [c] @ lit ''/'')
      \<or> m = lit ''embed/''
      \<or> m = lit ''watch?v=''
      \<or> m = lit ''&v='')"

text \<open>
  The same as functions that compute: the length of the marker with which a string
  begins, and the last position on the first line at which a marker begins.
\<close>

definition starts :: "string \<Rightarrow> jsstring \<Rightarrow> bool" where
  "starts a s = (take (length a) s = lit a)"

definition around :: "string \<Rightarrow> (code_unit \<Rightarrow> bool) \<Rightarrow> string \<Rightarrow> jsstring \<Rightarrow> bool" where
  "around a P b s =
     (take (length a) s = lit a \<and> drop (length a) s \<noteq> [] \<and> P (hd (drop (length a) s))
      \<and> take (length b) (tl (drop (length a) s)) = lit b)"

definition marker_len :: "jsstring \<Rightarrow> nat option" where
  "marker_len s =
     (if around ''youtu'' (\<lambda>c. \<not> line_terminator c) ''be/'' s then Some 9
      else if starts ''v/'' s then Some 2
      else if around ''u/'' word_char ''/'' s then Some 4
      else if starts ''embed/'' s then Some 6
      else if starts ''watch?v='' s then Some 8
      else if starts ''&v='' s then Some 3
      else None)"

definition first_unit :: "jsstring \<Rightarrow> code_unit option" where
  "first_unit s = (case s of [] \<Rightarrow> None | c # _ \<Rightarrow> Some c)"

definition first_caps :: "mstate list \<Rightarrow> captures option" where
  "first_caps xs = (case xs of [] \<Rightarrow> None | st # _ \<Rightarrow> Some (snd (snd st)))"

fun first_some :: "('a \<Rightarrow> 'b option) \<Rightarrow> 'a list \<Rightarrow> 'b option" where
  "first_some f [] = None"
| "first_some f (x # xs) = (case f x of Some y \<Rightarrow> Some y | None \<Rightarrow> first_some f xs)"

definition last_marker :: "jsstring \<Rightarrow> (nat \<times> nat) option" where
  "last_marker s =
     first_some (\<lambda>k. map_option (Pair k) (marker_len (drop k s)))
       (rev [0..<Suc (length (takeWhile (\<lambda>c. \<not> line_terminator c) s))])"

definition marker_caps :: "jsstring \<Rightarrow> nat \<times> nat \<Rightarrow> captures" where
  "marker_caps s kn =
     (case kn of (k, n) \<Rightarrow>
        [1 \<mapsto> take n (drop k s), 2 \<mapsto> takeWhile id_char (drop (k + n) s)])"

section \<open>Notions of the specification\<close>

text \<open>The component's state when it mounts: the initial values of its \<open>useState\<close> calls.\<close>

definition initial_state :: app_state where
  "initial_state =
     \<lparr>db = None, userId = None, isAuthReady = False, links = [], newLinkUrl = [],
      newLinkTitle = [], isLoading = True, error = [], showAddForm = False,
      summaries = Map.empty, isSummarizing = Map.empty\<rparr>"

text \<open>
  A well-formed generation payload, in the specification's words
  \<open>{candidates:[{content:{parts:[{text:"S"}]}}]}\<close>: \<open>payload_text\<close> is the first text
  part of the first candidate of such a payload (further members and further list
  elements are allowed), None for any other value.
\<close>

fun obj_field :: "jsval \<Rightarrow> jsstring \<Rightarrow> jsval option" where
  "obj_field (JObj kvs) name = map_of kvs name"
| "obj_field _ name = None"

fun first_elem :: "jsval \<Rightarrow> jsval option" where
  "first_elem (JArr (x # xs)) = Some x"
| "first_elem _ = None"

fun str_value :: "jsval \<Rightarrow> jsstring option" where
  "str_value (JStr s) = Some s"
| "str_value _ = None"

definition payload_text :: "jsval \<Rightarrow> jsstring option" where
  "payload_text result =
     Option.bind (obj_field result (lit ''candidates'')) (\<lambda>candidates.
     Option.bind (first_elem candidates) (\<lambda>candidate.
     Option.bind (obj_field candidate (lit ''content'')) (\<lambda>content.
     Option.bind (obj_field content (lit ''parts'')) (\<lambda>parts.
     Option.bind (first_elem parts) (\<lambda>part.
     Option.bind (obj_field part (lit ''text'')) str_value)))))"

text \<open>
  A payload that lacks the expected fields, in the specification's words "no
  candidates, or no content parts". \<open>field_of v name\<close> is the member \<open>name\<close> of an
  object, \<open>undefined\<close> when the object has no such member or \<open>v\<close> is not an object
  (\<open>null\<close> among these). The payload lacks the fields when the \<open>candidates\<close> of the body
  are missing, \<open>null\<close> or an empty list, or when the \<open>content\<close> of the first candidate
  is missing, \<open>null\<close> or not an object, or when the \<open>parts\<close> of that content are
  missing, \<open>null\<close> or an empty list.
\<close>

fun field_of :: "jsval \<Rightarrow> jsstring \<Rightarrow> jsval" where
  "field_of (JObj kvs) name = (case map_of kvs name of Some v \<Rightarrow> v | None \<Rightarrow> JUndefined)"
| "field_of _ name = JUndefined"





text \<open>The collection of a document path: the path without its last segment.\<close>

definition parent_collection :: "jsstring \<Rightarrow> jsstring" where
  "parent_collection path = rev (drop 1 (dropWhile (\<lambda>c. c \<noteq> 47) (rev path)))"

section \<open>Sample inputs\<close>

text \<open>
  A session that is ready, the specification's well-formed payload with text \<open>S\<close>, the
  answers of the outside world to one summary run, a success response with a given body,
  and a ready session whose add-form holds a url and a title.
\<close>

definition ready_state :: app_state where
  "ready_state = initial_state\<lparr>db := Some Firestore, userId := Some (lit ''u1''), isAuthReady := True\<rparr>"

definition text_payload :: "jsstring \<Rightarrow> jsval" where
  "text_payload S =
     JObj [(lit ''candidates'',
       JArr [JObj [(lit ''content'',
         JObj [(lit ''parts'', JArr [JObj [(lit ''text'', JStr S)]])])]])]"

definition answers :: "response settled \<Rightarrow> unit settled \<Rightarrow> summary_env" where
  "answers f u = \<lparr>fetch_result = f, updateDoc_result = u, type_error_message = lit ''TypeError''\<rparr>"

definition ok_response :: "jsval \<Rightarrow> response" where
  "ok_response body = \<lparr>ok = True, status = 200, json = Resolved body\<rparr>"

definition form_state :: "string \<Rightarrow> string \<Rightarrow> app_state" where
  "form_state u t = ready_state\<lparr>newLinkUrl := lit u, newLinkTitle := lit t, showAddForm := True\<rparr>"

section \<open>The backtracking matcher on the extractor's expression\<close>

lemma star_one_unit:
  "star (one_unit P) (i, s, g) =
     map (\<lambda>k. (i + k, drop k s, g)) (rev [0..<Suc (length (takeWhile P s))])"
proof (induction s arbitrary: i)
  case Nil
  show ?case by (subst star.simps) (simp add: one_unit_def rest_of_def)
next
  case (Cons c t)
  show ?case
  proof (cases "P c")
    case False
    then show ?thesis by (subst star.simps) (simp add: one_unit_def rest_of_def)
  next
    case True
    have "star (one_unit P) (i, c # t, g) = star (one_unit P) (Suc i, t, g) @ [(i, c # t, g)]"
      using True by (subst star.simps) (simp add: one_unit_def rest_of_def)
    also have "\<dots> = map (\<lambda>k. (Suc i + k, drop k t, g)) (rev [0..<Suc (length (takeWhile P t))]) @ [(i, c # t, g)]"
      by (simp only: Cons.IH)
    also have "\<dots> = map (\<lambda>k. (i + k, drop k (c # t), g)) (rev (map Suc [0..<Suc (length (takeWhile P t))])) @ [(i, c # t, g)]"
      by (simp add: rev_map comp_def)
    also have "\<dots> = map (\<lambda>k. (i + k, drop k (c # t), g)) (rev (0 # map Suc [0..<Suc (length (takeWhile P t))]))"
      by simp
    also have "0 # map Suc [0..<Suc (length (takeWhile P t))] = [0..<Suc (Suc (length (takeWhile P t)))]"
      by (simp only: map_Suc_upt upt_conv_Cons[of 0, symmetric] zero_less_Suc)
    finally show ?thesis using True by simp
  qed
qed

lemma one_unit_hd:
  "one_unit P (i, s, g) = (if s \<noteq> [] \<and> P (hd s) then [(Suc i, tl s, g)] else [])"
  by (cases s) (simp_all add: one_unit_def)

lemma rmatch_chars:
  "rmatch (foldr Cat (map Chr cs) Eps) (i, s, g) =
     (if take (length cs) s = cs then [(i + length cs, drop (length cs) s, g)] else [])"
proof (induction cs arbitrary: i s)
  case Nil
  show ?case by simp
next
  case (Cons c cs)
  show ?case
  proof (cases s)
    case Nil
    then show ?thesis by (simp add: one_unit_def)
  next
    case (Cons x t)
    then show ?thesis using Cons.IH[of "Suc i" t] by (simp add: one_unit_def)
  qed
qed

lemma rmatch_text_re:
  "rmatch (text_re w) (i, s, g) =
     (if take (length w) s = lit w then [(i + length w, drop (length w) s, g)] else [])"
  using rmatch_chars[of "lit w" i s g] by (simp add: text_re_def seq_def lit_def)

lemma rmatch_Cat_text_re:
  "rmatch (Cat (text_re w) b) (i, s, g) =
     (if take (length w) s = lit w then rmatch b (i + length w, drop (length w) s, g) else [])"
  by (simp add: rmatch_text_re)

lemma rmatch_Cat_Dot:
  "rmatch (Cat Dot b) (i, s, g) =
     (if s \<noteq> [] \<and> \<not> line_terminator (hd s) then rmatch b (Suc i, tl s, g) else [])"
  by (simp add: one_unit_hd)

lemma rmatch_Cat_WordCh:
  "rmatch (Cat WordCh b) (i, s, g) =
     (if s \<noteq> [] \<and> word_char (hd s) then rmatch b (Suc i, tl s, g) else [])"
  by (simp add: one_unit_hd)

lemma concat_map_single: "concat (map (\<lambda>x. [x]) xs) = xs"
  by (induction xs) simp_all

lemma rmatch_Cat_Eps: "rmatch (Cat a Eps) st = rmatch a st"
proof -
  have "rmatch Eps = (\<lambda>x. [x])" by (rule ext) simp
  then show ?thesis by (simp add: concat_map_single)
qed

lemma rmatch_around_Dot:
  "rmatch (seq [text_re a, Dot, text_re b]) (i, s, g) =
     (if around a (\<lambda>c. \<not> line_terminator c) b s
      then [(i + (Suc (length a) + length b), drop (Suc (length a) + length b) s, g)] else [])"
  unfolding seq_def foldr.simps o_apply around_def
  by (simp only: rmatch_Cat_text_re rmatch_Cat_Dot rmatch_Cat_Eps rmatch_text_re)
     (simp add: tl_drop drop_Suc add.commute)

lemma rmatch_around_WordCh:
  "rmatch (seq [text_re a, WordCh, text_re b]) (i, s, g) =
     (if around a word_char b s
      then [(i + (Suc (length a) + length b), drop (Suc (length a) + length b) s, g)] else [])"
  unfolding seq_def foldr.simps o_apply around_def
  by (simp only: rmatch_Cat_text_re rmatch_Cat_WordCh rmatch_Cat_Eps rmatch_text_re)
     (simp add: tl_drop drop_Suc add.commute)

lemma rmatch_starts:
  "rmatch (text_re a) (i, s, g) =
     (if starts a s then [(i + length a, drop (length a) s, g)] else [])"
  by (simp add: rmatch_text_re starts_def)

lemma starts_first:
  "starts (c # a) s \<Longrightarrow> first_unit s = Some (of_char c)"
  by (cases s) (simp_all add: starts_def first_unit_def lit_def)

lemma around_first:
  "around (c # a) P b s \<Longrightarrow> first_unit s = Some (of_char c)"
  by (cases s) (simp_all add: around_def first_unit_def lit_def)

lemma rmatch_group1_body:
  "rmatch (alts (seq [text_re ''youtu'', Dot, text_re ''be/''])
                 [text_re ''v/'',
                  seq [text_re ''u/'', WordCh, text_re ''/''],
                  text_re ''embed/'',
                  text_re ''watch?v='',
                  text_re ''&v='']) (i, s, g) =
     (case marker_len s of
        None \<Rightarrow> []
      | Some n \<Rightarrow> [(i + n, drop n s, g)])"
proof -
  let ?c1 = "around ''youtu'' (\<lambda>c. \<not> line_terminator c) ''be/'' s"
  let ?c2 = "starts ''v/'' s"
  let ?c3 = "around ''u/'' word_char ''/'' s"
  let ?c4 = "starts ''embed/'' s"
  let ?c5 = "starts ''watch?v='' s"
  let ?c6 = "starts ''&v='' s"
  have unfolded: "rmatch (alts (seq [text_re ''youtu'', Dot, text_re ''be/''])
                 [text_re ''v/'',
                  seq [text_re ''u/'', WordCh, text_re ''/''],
                  text_re ''embed/'',
                  text_re ''watch?v='',
                  text_re ''&v='']) (i, s, g) =
      (if ?c1 then [(i + 9, drop 9 s, g)] else []) @
      (if ?c2 then [(i + 2, drop 2 s, g)] else []) @
      (if ?c3 then [(i + 4, drop 4 s, g)] else []) @
      (if ?c4 then [(i + 6, drop 6 s, g)] else []) @
      (if ?c5 then [(i + 8, drop 8 s, g)] else []) @
      (if ?c6 then [(i + 3, drop 3 s, g)] else [])"
    unfolding alts_def foldl.simps rmatch.simps(8) rmatch_around_Dot rmatch_around_WordCh rmatch_starts
    by (simp add: eval_nat_numeral)
  have e1: "?c1 \<Longrightarrow> \<not> ?c2 \<and> \<not> ?c3 \<and> \<not> ?c4 \<and> \<not> ?c5 \<and> \<not> ?c6"
    by (auto dest!: around_first starts_first)
  have e2: "?c2 \<Longrightarrow> \<not> ?c3 \<and> \<not> ?c4 \<and> \<not> ?c5 \<and> \<not> ?c6"
    by (auto dest!: around_first starts_first)
  have e3: "?c3 \<Longrightarrow> \<not> ?c4 \<and> \<not> ?c5 \<and> \<not> ?c6"
    by (auto dest!: around_first starts_first)
  have e4: "?c4 \<Longrightarrow> \<not> ?c5 \<and> \<not> ?c6"
    by (auto dest!: around_first starts_first)
  have e5: "?c5 \<Longrightarrow> \<not> ?c6"
    by (auto dest!: around_first starts_first)
  show ?thesis
    unfolding unfolded marker_len_def using e1 e2 e3 e4 e5 by auto
qed

lemma rmatch_group1:
  "rmatch group1 (i, s, g) =
     (case marker_len s of
        None \<Rightarrow> []
      | Some n \<Rightarrow> [(i + n, drop n s, g(1 \<mapsto> take n s))])"
  unfolding group1_def rmatch.simps(10) prod.case rmatch_group1_body
  by (simp split: option.split)

lemma regExp_unfold:
  "regExp = Cat Bol (Cat (Star Dot) (Cat group1 (Cat group2 (Cat (Star Dot) Eps))))"
  by (simp add: regExp_def seq_def)

lemma rev_upt_Suc: "rev [0..<Suc n] = n # rev [0..<n]"
  by simp

lemma first_caps_Nil: "first_caps [] = None"
  by (simp add: first_caps_def)

lemma first_caps_append:
  "first_caps (xs @ ys) = (case first_caps xs of Some c \<Rightarrow> Some c | None \<Rightarrow> first_caps ys)"
  by (cases xs) (simp_all add: first_caps_def)

lemma first_caps_concat:
  "first_caps (concat (map F xs)) = first_some (\<lambda>x. first_caps (F x)) xs"
  by (induction xs) (simp_all add: first_caps_append first_caps_Nil split: option.split)

lemma rmatch_Star_Dot:
  "rmatch (Star Dot) (i, s, g) =
     map (\<lambda>k. (i + k, drop k s, g)) (rev [0..<Suc (length (takeWhile (\<lambda>c. \<not> line_terminator c) s))])"
proof -
  have "rmatch Dot = one_unit (\<lambda>c. \<not> line_terminator c)" by (rule ext) simp
  then show ?thesis by (simp only: rmatch.simps(9) star_one_unit)
qed

lemma rmatch_group2:
  "rmatch group2 (i, s, g) =
     map (\<lambda>k. (i + k, drop k s, g(2 \<mapsto> take k s))) (rev [0..<Suc (length (takeWhile id_char s))])"
proof -
  have "id_char = (\<lambda>x. x \<notin> set (lit ''#&?''))"
    by (rule ext) (simp add: id_char_def)
  then have "rmatch (NoneOf (lit ''#&?'')) = one_unit id_char"
    by (intro ext) simp
  then show ?thesis
    unfolding group2_def rmatch.simps(10) prod.case rmatch.simps(9)
    by (simp only: star_one_unit) (simp add: comp_def)
qed

lemma first_caps_Star_Dot:
  "first_caps (rmatch (Cat (Star Dot) Eps) (i, s, g)) = Some g"
  unfolding rmatch_Cat_Eps rmatch_Star_Dot rev_upt_Suc
  by (simp add: first_caps_def)

lemma first_caps_tail2:
  "first_caps (rmatch (Cat group2 (Cat (Star Dot) Eps)) (i, s, g)) =
     Some (g(2 \<mapsto> takeWhile id_char s))"
proof -
  have "rmatch (Cat group2 (Cat (Star Dot) Eps)) (i, s, g) =
          concat (map (rmatch (Cat (Star Dot) Eps)) (rmatch group2 (i, s, g)))"
    by (simp only: rmatch.simps(7))
  moreover have "take (length (takeWhile id_char s)) s = takeWhile id_char s"
    by (rule takeWhile_eq_take[symmetric])
  ultimately show ?thesis
    unfolding rmatch_group2 rev_upt_Suc
    by (simp add: first_caps_append first_caps_Star_Dot del: rmatch.simps)
qed

lemma first_caps_tail1:
  "first_caps (rmatch (Cat group1 (Cat group2 (Cat (Star Dot) Eps))) (i, s, g)) =
     (case marker_len s of
        None \<Rightarrow> None
      | Some n \<Rightarrow> Some (g(1 \<mapsto> take n s, 2 \<mapsto> takeWhile id_char (drop n s))))"
proof -
  have "rmatch (Cat group1 (Cat group2 (Cat (Star Dot) Eps))) (i, s, g) =
          concat (map (rmatch (Cat group2 (Cat (Star Dot) Eps))) (rmatch group1 (i, s, g)))"
    by (simp only: rmatch.simps(7))
  then show ?thesis
    unfolding rmatch_group1
    by (simp add: first_caps_tail2 first_caps_Nil split: option.split del: rmatch.simps)
qed

lemma first_some_map_option:
  "first_some (\<lambda>x. map_option h (f x)) xs = map_option h (first_some f xs)"
  by (induction xs) (simp_all split: option.split)

lemma first_some_cong_eq:
  "(\<And>x. x \<in> set xs \<Longrightarrow> f x = g x) \<Longrightarrow> first_some f xs = first_some g xs"
  by (induction xs) (simp_all split: option.split)

lemma first_some_map: "first_some f (map h xs) = first_some (\<lambda>x. f (h x)) xs"
  by (induction xs) (simp_all split: option.split)

lemma first_caps_regExp_0:
  "first_caps (rmatch regExp (0, s, Map.empty)) = map_option (marker_caps s) (last_marker s)"
proof -
  let ?tail = "Cat group1 (Cat group2 (Cat (Star Dot) Eps))"
  let ?ks = "rev [0..<Suc (length (takeWhile (\<lambda>c. \<not> line_terminator c) s))]"
  have "rmatch regExp (0, s, Map.empty) =
          concat (map (rmatch ?tail) (rmatch (Star Dot) (0, s, Map.empty)))"
    unfolding regExp_unfold by (simp only: rmatch.simps(5,7)) simp
  then have "first_caps (rmatch regExp (0, s, Map.empty)) =
          first_some (\<lambda>st. first_caps (rmatch ?tail st)) (rmatch (Star Dot) (0, s, Map.empty))"
    by (simp only: first_caps_concat)
  also have "\<dots> = first_some (\<lambda>k. first_caps (rmatch ?tail (k, drop k s, Map.empty))) ?ks"
    unfolding rmatch_Star_Dot by (simp only: first_some_map) simp
  also have "\<dots> = first_some (\<lambda>k. map_option (marker_caps s) (map_option (Pair k) (marker_len (drop k s)))) ?ks"
    by (rule first_some_cong_eq)
       (simp add: first_caps_tail1 marker_caps_def add.commute split: option.split del: rmatch.simps)
  also have "\<dots> = map_option (marker_caps s) (last_marker s)"
    unfolding last_marker_def by (rule first_some_map_option)
  finally show ?thesis .
qed

lemma rmatch_regExp_Suc: "rmatch regExp (Suc i, s, g) = []"
  unfolding regExp_unfold by (simp only: rmatch.simps(5,7)) simp

lemma exec_from_regExp_Suc: "exec_from regExp (Suc i) s = None"
  by (induction s arbitrary: i) (simp_all add: rmatch_regExp_Suc del: rmatch.simps)

lemma js_match_regExp:
  "js_match s regExp = map_option (marker_caps s) (last_marker s)"
proof -
  have "js_match s regExp = first_caps (rmatch regExp (0, s, Map.empty))"
    unfolding js_match_def
    by (subst exec_from.simps)
       (simp add: first_caps_def exec_from_regExp_Suc split: list.split del: exec_from.simps rmatch.simps)
  then show ?thesis by (simp only: first_caps_regExp_0)
qed

lemma regExp_group2: "js_match s regExp = Some m \<Longrightarrow> m 2 \<noteq> None"
  by (auto simp: js_match_regExp marker_caps_def)

lemma getYouTubeVideoId_Some:
  "getYouTubeVideoId (Some u) =
     (case last_marker u of
        None \<Rightarrow> None
      | Some (k, n) \<Rightarrow>
          (let v = takeWhile id_char (drop (k + n) u)
           in if length v = 11 then Some v else None))"
proof (cases "u = []")
  case True
  then show ?thesis
    by (simp add: getYouTubeVideoId_def last_marker_def marker_len_def around_def starts_def lit_def)
next
  case False
  then show ?thesis
    by (simp add: getYouTubeVideoId_def js_match_regExp marker_caps_def split: option.split)
qed

lemma length_lit: "length (lit a) = length a"
  by (simp add: lit_def)

lemma starts_iff: "starts a s \<longleftrightarrow> (\<exists>t. s = lit a @ t)"
proof
  assume "starts a s"
  then have "s = lit a @ drop (length a) s"
    unfolding starts_def by (metis append_take_drop_id)
  then show "\<exists>t. s = lit a @ t" ..
next
  assume "\<exists>t. s = lit a @ t"
  then show "starts a s" by (auto simp: starts_def length_lit)
qed

lemma around_iff: "around a P b s \<longleftrightarrow> (\<exists>c t. P c \<and> s = lit a @ [c] @ lit b @ t)"
proof
  assume h: "around a P b s"
  let ?r = "drop (length a) s"
  from h have 1: "s = lit a @ ?r" unfolding around_def by (metis append_take_drop_id)
  from h have 2: "?r = hd ?r # tl ?r" unfolding around_def by simp
  from h have 3: "tl ?r = lit b @ drop (length b) (tl ?r)"
    unfolding around_def by (metis append_take_drop_id)
  from h have 4: "P (hd ?r)" unfolding around_def by simp
  have "s = lit a @ [hd ?r] @ lit b @ drop (length b) (tl ?r)"
    using 1 2 3 by (metis append_Cons append_Nil)
  with 4 show "\<exists>c t. P c \<and> s = lit a @ [c] @ lit b @ t" by blast
next
  assume "\<exists>c t. P c \<and> s = lit a @ [c] @ lit b @ t"
  then show "around a P b s" by (auto simp: around_def length_lit)
qed

lemma marker_len_marker:
  assumes "marker_len s = Some n"
  shows "\<exists>m t. s = m @ t \<and> marker m \<and> length m = n"
proof -
  consider
      (youtu) "around ''youtu'' (\<lambda>c. \<not> line_terminator c) ''be/'' s" "n = 9"
    | (v) "starts ''v/'' s" "n = 2"
    | (u) "around ''u/'' word_char ''/'' s" "n = 4"
    | (embed) "starts ''embed/'' s" "n = 6"
    | (watch) "starts ''watch?v='' s" "n = 8"
    | (amp) "starts ''&v='' s" "n = 3"
    using assms unfolding marker_len_def by (auto split: if_splits)
  then show ?thesis
  proof cases
    case youtu
    then obtain c t where "\<not> line_terminator c" "s = lit ''youtu'' @ [c] @ lit ''be/'' @ t"
      unfolding around_iff by blast
    then have "s = (lit ''youtu'' @ [c] @ lit ''be/'') @ t \<and> marker (lit ''youtu'' @ [c] @ lit ''be/'')
      \<and> length (lit ''youtu'' @ [c] @ lit ''be/'') = n"
      using youtu(2) by (auto simp: marker_def length_lit)
    then show ?thesis by blast
  next
    case v
    then obtain t where "s = lit ''v/'' @ t" unfolding starts_iff by blast
    then have "s = lit ''v/'' @ t \<and> marker (lit ''v/'') \<and> length (lit ''v/'') = n"
      using v(2) by (simp add: marker_def length_lit)
    then show ?thesis by blast
  next
    case u
    then obtain c t where "word_char c" "s = lit ''u/'' @ [c] @ lit ''/'' @ t"
      unfolding around_iff by blast
    then have "s = (lit ''u/'' @ [c] @ lit ''/'') @ t \<and> marker (lit ''u/'' @ [c] @ lit ''/'')
      \<and> length (lit ''u/'' @ [c] @ lit ''/'') = n"
      using u(2) by (auto simp: marker_def length_lit)
    then show ?thesis by blast
  next
    case embed
    then obtain t where "s = lit ''embed/'' @ t" unfolding starts_iff by blast
    then have "s = lit ''embed/'' @ t \<and> marker (lit ''embed/'') \<and> length (lit ''embed/'') = n"
      using embed(2) by (simp add: marker_def length_lit)
    then show ?thesis by blast
  next
    case watch
    then obtain t where "s = lit ''watch?v='' @ t" unfolding starts_iff by blast
    then have "s = lit ''watch?v='' @ t \<and> marker (lit ''watch?v='') \<and> length (lit ''watch?v='') = n"
      using watch(2) by (simp add: marker_def length_lit)
    then show ?thesis by blast
  next
    case amp
    then obtain t where "s = lit ''&v='' @ t" unfolding starts_iff by blast
    then have "s = lit ''&v='' @ t \<and> marker (lit ''&v='') \<and> length (lit ''&v='') = n"
      using amp(2) by (simp add: marker_def length_lit)
    then show ?thesis by blast
  qed
qed

lemma marker_marker_len:
  assumes "marker m"
  shows "marker_len (m @ t) = Some (length m)"
  using assms unfolding marker_def
  by (elim disjE exE conjE)
     (simp_all add: marker_len_def around_def starts_def lit_def)

lemma first_some_rev_upt:
  "first_some (\<lambda>k. map_option (Pair k) (g k)) (rev [0..<Suc N]) = Some (k, n) \<longleftrightarrow>
     k \<le> N \<and> g k = Some n \<and> (\<forall>k'. k < k' \<and> k' \<le> N \<longrightarrow> g k' = None)"
proof (induction N)
  case 0
  show ?case by (auto split: option.splits)
next
  case (Suc N)
  have step: "first_some (\<lambda>k. map_option (Pair k) (g k)) (rev [0..<Suc (Suc N)]) =
      (case g (Suc N) of Some n' \<Rightarrow> Some (Suc N, n')
       | None \<Rightarrow> first_some (\<lambda>k. map_option (Pair k) (g k)) (rev [0..<Suc N]))"
    by (simp split: option.split)
  show ?case
  proof (cases "g (Suc N)")
    case None
    then show ?thesis
      unfolding step using Suc.IH by (auto simp: le_Suc_eq)
  next
    case (Some n')
    then show ?thesis
      unfolding step by (auto simp: le_Suc_eq)
  qed
qed

lemma last_marker_iff:
  "last_marker s = Some (k, n) \<longleftrightarrow>
     k \<le> length (takeWhile (\<lambda>c. \<not> line_terminator c) s) \<and> marker_len (drop k s) = Some n \<and>
     (\<forall>k'. k < k' \<and> k' \<le> length (takeWhile (\<lambda>c. \<not> line_terminator c) s)
        \<longrightarrow> marker_len (drop k' s) = None)"
  unfolding last_marker_def by (rule first_some_rev_upt)

lemma take_all_iff:
  "k \<le> length s \<Longrightarrow> (\<forall>c\<in>set (take k s). P c) \<longleftrightarrow> k \<le> length (takeWhile P s)"
proof (induction s arbitrary: k)
  case Nil
  then show ?case by simp
next
  case (Cons x xs)
  then show ?case by (cases k) auto
qed

lemma takeWhile_segment:
  "\<forall>c\<in>set v. P c \<Longrightarrow> rest = [] \<or> \<not> P (hd rest) \<Longrightarrow> takeWhile P (v @ rest) = v"
  by (cases rest) (simp_all add: takeWhile_append2 takeWhile_eq_all_conv[THEN iffD2])

lemma first_line_take:
  "k \<le> length s \<Longrightarrow> first_line (take k s) \<longleftrightarrow> k \<le> length (takeWhile (\<lambda>c. \<not> line_terminator c) s)"
  unfolding first_line_def by (rule take_all_iff)

lemma takeWhile_le: "length (takeWhile P s) \<le> length s"
  by (rule length_takeWhile_le)

lemma extract_intro:
  assumes u: "u = pre @ m @ v @ rest"
    and pre: "first_line pre"
    and m: "marker m"
    and len: "length v = 11"
    and v: "\<forall>c\<in>set v. id_char c"
    and rest: "rest = [] \<or> \<not> id_char (hd rest)"
    and last: "\<forall>pre' m' rest'. u = pre' @ m' @ rest' \<and> first_line pre' \<and> marker m'
                 \<longrightarrow> length pre' \<le> length pre"
  shows "getYouTubeVideoId (Some u) = Some v"
proof -
  let ?N = "length (takeWhile (\<lambda>c. \<not> line_terminator c) u)"
  let ?k = "length pre"
  have tk: "take ?k u = pre" and dk: "drop ?k u = m @ v @ rest" using u by simp_all
  have kN: "?k \<le> ?N" using first_line_take[of ?k u] tk pre u by simp
  have here: "marker_len (drop ?k u) = Some (length m)"
    unfolding dk by (rule marker_marker_len[OF m])
  have later: "marker_len (drop k' u) = None" if k': "?k < k'" "k' \<le> ?N" for k'
  proof (rule ccontr)
    assume "marker_len (drop k' u) \<noteq> None"
    then obtain n' where "marker_len (drop k' u) = Some n'" by blast
    then obtain m' t' where d: "drop k' u = m' @ t'" and m': "marker m'"
      using marker_len_marker by blast
    have le: "k' \<le> length u" using k'(2) takeWhile_le[of _ u] by (meson le_trans)
    have "u = take k' u @ m' @ t'" using d by (metis append_take_drop_id)
    moreover have "first_line (take k' u)" using first_line_take[OF le] k'(2) by simp
    ultimately have "length (take k' u) \<le> ?k" using last m' by blast
    then show False using le k'(1) by simp
  qed
  have "last_marker u = Some (?k, length m)"
    unfolding last_marker_iff using kN here later by blast
  moreover have "drop (?k + length m) u = v @ rest" using u by simp
  moreover have "takeWhile id_char (v @ rest) = v" by (rule takeWhile_segment[OF v rest])
  ultimately show ?thesis using len by (simp add: getYouTubeVideoId_Some)
qed

lemma extract_elim:
  assumes "getYouTubeVideoId (Some u) = Some v"
  shows "\<exists>pre m rest. u = pre @ m @ v @ rest \<and> first_line pre \<and> marker m \<and> length v = 11
           \<and> (\<forall>c\<in>set v. id_char c) \<and> (rest = [] \<or> \<not> id_char (hd rest))
           \<and> (\<forall>pre' m' rest'. u = pre' @ m' @ rest' \<and> first_line pre' \<and> marker m'
                 \<longrightarrow> length pre' \<le> length pre)"
proof -
  let ?N = "length (takeWhile (\<lambda>c. \<not> line_terminator c) u)"
  from assms obtain k n where lm: "last_marker u = Some (k, n)"
    and v: "v = takeWhile id_char (drop (k + n) u)" and len: "length v = 11"
    by (auto simp: getYouTubeVideoId_Some Let_def split: option.splits if_splits)
  from lm have kN: "k \<le> ?N" and here: "marker_len (drop k u) = Some n"
    and later: "\<And>k'. k < k' \<Longrightarrow> k' \<le> ?N \<Longrightarrow> marker_len (drop k' u) = None"
    unfolding last_marker_iff by blast+
  from here obtain m t where d: "drop k u = m @ t" and m: "marker m" and n: "length m = n"
    using marker_len_marker by blast
  have kle: "k \<le> length u" using kN takeWhile_le[of _ u] by (meson le_trans)
  let ?pre = "take k u"
  let ?rest = "dropWhile id_char t"
  have lp: "length ?pre = k" using kle by simp
  have t: "t = drop (k + n) u"
    using d n by (metis add.commute append_eq_conv_conj drop_drop)
  have vt: "t = v @ ?rest" unfolding v t[symmetric] by simp
  have u: "u = ?pre @ m @ v @ ?rest" using d vt by (metis append_take_drop_id)
  have pre: "first_line ?pre" using first_line_take[OF kle] kN by simp
  have vs: "\<forall>c\<in>set v. id_char c" unfolding v by (meson set_takeWhileD)
  have rest: "?rest = [] \<or> \<not> id_char (hd ?rest)" by (metis hd_dropWhile)
  have last: "length pre' \<le> length ?pre"
    if h: "u = pre' @ m' @ rest'" "first_line pre'" "marker m'" for pre' m' rest'
  proof (rule ccontr)
    assume "\<not> length pre' \<le> length ?pre"
    then have gt: "k < length pre'" unfolding lp by simp
    have tk: "take (length pre') u = pre'" and dk: "drop (length pre') u = m' @ rest'"
      using h(1) by simp_all
    have "length pre' \<le> length u" using h(1) by simp
    then have "length pre' \<le> ?N" using first_line_take[of "length pre'" u] tk h(2) by simp
    then have "marker_len (drop (length pre') u) = None" using later gt by blast
    moreover have "marker_len (drop (length pre') u) = Some (length m')"
      unfolding dk by (rule marker_marker_len[OF h(3)])
    ultimately show False by simp
  qed
  show ?thesis using u pre m len vs rest last by blast
qed

text \<open>The examples of the specification, and two inputs on which the markers matter.\<close>

lemma getYouTubeVideoId_examples:
  "getYouTubeVideoId (Some (lit ''https://www.youtube.com/watch?v=dQw4w9WgXcQ''))
     = Some (lit ''dQw4w9WgXcQ'')"
  "getYouTubeVideoId (Some (lit ''https://youtu.be/dQw4w9WgXcQ?t=5'')) = Some (lit ''dQw4w9WgXcQ'')"
  "getYouTubeVideoId (Some (lit ''https://example.com/video'')) = None"
  "getYouTubeVideoId (Some (lit ''https://www.youtube.com/?v=dQw4w9WgXcQ'')) = None"
  "getYouTubeVideoId (Some (lit ''https://example.com/tv/abcdefghijk'')) = Some (lit ''abcdefghijk'')"
  by (simp_all add: getYouTubeVideoId_Some last_marker_def marker_len_def around_def starts_def
      lit_def line_terminator_def word_char_def id_char_def)

lemmas extractor_eval =
  getYouTubeVideoId_Some last_marker_def marker_len_def around_def starts_def lit_def
  line_terminator_def word_char_def id_char_def

section \<open>The handlers: what a run leaves\<close>

lemma pending_summary_try_flag:
  "pending (summary_try appId uid linkId env st) = Some st2 \<Longrightarrow> isSummarizing st2 = isSummarizing st"
  by (auto simp: summary_try_def throws_def Let_def
      split: settled.splits sum.splits bool.splits if_splits)

lemma obj_field_Some: "obj_field v name = Some x \<Longrightarrow> \<exists>kvs. v = JObj kvs \<and> map_of kvs name = Some x"
  by (cases v) simp_all

lemma first_elem_Some: "first_elem v = Some x \<Longrightarrow> \<exists>xs. v = JArr (x # xs)"
  by (erule first_elem.elims) simp_all

lemma str_value_Some: "str_value v = Some s \<Longrightarrow> v = JStr s"
  by (cases v) simp_all

lemma gt0_length: "gt0 (JNum (int (length (x # xs))))"
  by (simp add: gt0_def)

lemma payload_text_reads:
  assumes "payload_text result = Some S"
  shows "has_text result = Inr True" and "first_text result = Inr (JStr S)"
proof -
  from assms obtain candidates candidate content parts part t where
    1: "obj_field result (lit ''candidates'') = Some candidates" and
    2: "first_elem candidates = Some candidate" and
    3: "obj_field candidate (lit ''content'') = Some content" and
    4: "obj_field content (lit ''parts'') = Some parts" and
    5: "first_elem parts = Some part" and
    6: "obj_field part (lit ''text'') = Some t" and
    7: "str_value t = Some S"
    unfolding payload_text_def by (auto simp: bind_eq_Some_conv)
  from 1 obtain r where r: "result = JObj r" "map_of r (lit ''candidates'') = Some candidates"
    using obj_field_Some by blast
  from 2 obtain cs where cs: "candidates = JArr (candidate # cs)" using first_elem_Some by blast
  from 3 obtain c where c: "candidate = JObj c" "map_of c (lit ''content'') = Some content"
    using obj_field_Some by blast
  from 4 obtain ct where ct: "content = JObj ct" "map_of ct (lit ''parts'') = Some parts"
    using obj_field_Some by blast
  from 5 obtain ps where ps: "parts = JArr (part # ps)" using first_elem_Some by blast
  from 6 obtain p where p: "part = JObj p" "map_of p (lit ''text'') = Some t"
    using obj_field_Some by blast
  from 7 have t: "t = JStr S" by (rule str_value_Some)
  show "has_text result = Inr True"
    by (simp add: has_text_def and_then_def r cs c ct ps gt0_def)
  show "first_text result = Inr (JStr S)"
    by (simp add: first_text_def and_then_def r cs c ct ps p t)
qed

lemma field_of_list:
  "field_of result name = JArr xs \<Longrightarrow> \<exists>r. result = JObj r \<and> map_of r name = Some (JArr xs)"
  by (cases result) (auto split: option.splits)






lemma summary_try_success:
  assumes "fetch_result env = Resolved r" "ok r" "json r = Resolved result"
    and "payload_text result = Some S"
  shows "summary_try appId uid linkId env st1 =
     \<lparr>thrown = (case updateDoc_result env of Resolved _ \<Rightarrow> None | Rejected m \<Rightarrow> Some (Error m)),
      left = st1\<lparr>summaries := (summaries st1)(linkId \<mapsto> JStr S)\<rparr>,
      pending = Some (st1\<lparr>summaries := (summaries st1)(linkId \<mapsto> JStr S)\<rparr>),
      issued = [UpdateDoc (linkDocPath appId uid linkId) (JStr S)]\<rparr>"
  using assms(1-3) payload_text_reads[OF assms(4)]
  by (simp add: summary_try_def Let_def split: settled.split)

lemma handleGetSummary_ready:
  assumes "session st = Some uid"
  shows "handleGetSummary appId st linkId linkTitle linkUrl env =
     (let st1 = st\<lparr>isSummarizing := (isSummarizing st)(linkId \<mapsto> True),
                    summaries := (summaries st)(linkId \<mapsto> JStr generating)\<rparr>;
          t = summary_try appId uid linkId env st1;
          st3 = (case thrown t of None \<Rightarrow> left t | Some err \<Rightarrow> summary_catch env linkId err (left t))
      in \<lparr>at_trigger = st1, at_update = pending t, at_settle = summary_finally linkId st3,
          prompts = [prompt linkTitle linkUrl], store_calls = issued t\<rparr>)"
  using assms by (simp add: handleGetSummary_def)

lemma Error_not_generating: "JStr (lit ''Error: '' @ m) \<noteq> JStr generating"
  by (simp add: lit_def generating_def)

lemma Error_startsWith: "startsWith (lit ''Error: '' @ m) (lit ''Error:'')"
  by (simp add: startsWith_def lit_def)

lemma summary_try_http_failure:
  assumes "fetch_result env = Resolved r" "\<not> ok r"
  shows "\<exists>e. summary_try appId uid linkId env st1 = throws e st1"
  using assms by (auto simp: summary_try_def split: settled.split)

lemma getYouTubeVideoId_length: "getYouTubeVideoId u = Some v \<Longrightarrow> length v = 11"
  by (auto simp: getYouTubeVideoId_def split: option.splits if_splits)

lemma doc_path_in_collection:
  "linkDocPath appId uid linkId = linksCollectionPath appId uid @ lit ''/'' @ linkId"
  by (simp add: linkDocPath_def linksCollectionPath_def lit_def)

lemma parent_collection_doc:
  assumes "47 \<notin> set linkId"
  shows "parent_collection (path @ lit ''/'' @ linkId) = path"
proof -
  have "dropWhile (\<lambda>c. c \<noteq> 47) (rev linkId @ 47 # rev path) = 47 # rev path"
    using assms by (auto simp: dropWhile_append3)
  then show ?thesis by (simp add: parent_collection_def lit_def)
qed

lemma store_calls_summary:
  "issued (summary_try appId uid linkId env st) = []
   \<or> (\<exists>v. issued (summary_try appId uid linkId env st) = [UpdateDoc (linkDocPath appId uid linkId) v])"
  by (simp add: summary_try_def throws_def Let_def split: settled.split sum.split bool.split)

lemma session_ready_state: "session ready_state = Some (lit ''u1'')"
  by (simp add: session_def ready_state_def initial_state_def lit_def)

lemma payload_text_text_payload: "payload_text (text_payload S) = Some S"
  by (simp add: payload_text_def text_payload_def)

lemma session_form_state: "session (form_state u t) = Some (lit ''u1'')"
  by (simp add: session_def form_state_def ready_state_def initial_state_def lit_def)

lemma left_summary_try_ids:
  "db (left (summary_try appId uid linkId env st)) = db st"
  "userId (left (summary_try appId uid linkId env st)) = userId st"
  by (auto simp: summary_try_def throws_def Let_def
      split: settled.split sum.split bool.split)

lemma at_settle_ids:
  "db (at_settle (handleGetSummary appId st linkId linkTitle linkUrl env)) = db st"
  "userId (at_settle (handleGetSummary appId st linkId linkTitle linkUrl env)) = userId st"
  by (auto simp: handleGetSummary_def Let_def summary_finally_def summary_catch_def
      left_summary_try_ids split: option.split)

lemma handleGetSummary_session:
  "session (at_settle (handleGetSummary appId st linkId linkTitle linkUrl env)) = session st"
  by (simp only: session_def at_settle_ids)

lemma extract_sample:
  "getYouTubeVideoId (Some (lit ''https://youtu.be/dQw4w9WgXcQ'')) = Some (lit ''dQw4w9WgXcQ'')"
  by (simp add: extractor_eval)

lemma trim_samples:
  "trim (lit ''https://youtu.be/dQw4w9WgXcQ'') \<noteq> []"
  "trim (lit ''Rick'') \<noteq> []"
  "trim (lit '' '') = []"
  by (simp_all add: trim_def lit_def js_whitespace_def)

lemma form_state_fields:
  "newLinkUrl (form_state u t) = lit u" "newLinkTitle (form_state u t) = lit t"
  "showAddForm (form_state u t)"
  by (simp_all add: form_state_def)

text \<open>
  The guard: a handler called while the store handle or the user identifier is missing
  sets the not-ready text, issues no call and touches neither map.
\<close>

lemma refused_when_not_ready:
  assumes "session st = None"
  shows "store_calls (handleGetSummary appId st linkId linkTitle linkUrl env) = []"
    and "prompts (handleGetSummary appId st linkId linkTitle linkUrl env) = []"
    and "isSummarizing (at_settle (handleGetSummary appId st linkId linkTitle linkUrl env))
           = isSummarizing st"
    and "summaries (at_settle (handleGetSummary appId st linkId linkTitle linkUrl env))
           = summaries st"
    and "snd (handleDeleteLink appId st linkId r) = []"
    and "snd (handleAddLink appId st r) = []"
  using assms by (simp_all add: handleGetSummary_def handleDeleteLink_def handleAddLink_def Let_def)

section \<open>The video-id extractor: what it returns\<close>

text \<open>
  Claim C1, as amended. The greedy \<open>.*\<close> in front of group 1 makes the matcher settle on
  the last marker of the first line, and the markers are those of the expression
  (\<open>youtu\<close>, any character but a line terminator, \<open>be/\<close>; \<open>v/\<close>; \<open>u/\<close>, a word
  character, \<open>/\<close>; \<open>embed/\<close>; \<open>watch?v=\<close>; \<open>&v=\<close>). The extractor returns \<open>v\<close>
  exactly when the input is a string that splits into a text on its first line, a
  marker, \<open>v\<close> and a rest, where \<open>v\<close> has 11 characters, none of them \<open>#\<close>, \<open>&\<close> or
  \<open>?\<close>, the rest is empty or begins with one of these three, and no marker begins
  later on the first line. For every other input, \<open>null\<close> and the empty string among
  them, it returns \<open>null\<close>.
\<close>

theorem getYouTubeVideoId_last_marker:
  "(getYouTubeVideoId url = Some v \<longleftrightarrow>
      (\<exists>u pre m rest. url = Some u \<and> u = pre @ m @ v @ rest \<and> first_line pre \<and> marker m
          \<and> length v = 11 \<and> (\<forall>c\<in>set v. id_char c) \<and> (rest = [] \<or> \<not> id_char (hd rest))
          \<and> (\<forall>pre' m' rest'. u = pre' @ m' @ rest' \<and> first_line pre' \<and> marker m'
                 \<longrightarrow> length pre' \<le> length pre)))
   \<and> getYouTubeVideoId None = None \<and> getYouTubeVideoId (Some []) = None"
proof (intro conjI iffI)
  assume h: "getYouTubeVideoId url = Some v"
  then obtain u where url: "url = Some u" by (cases url) (simp_all add: getYouTubeVideoId_def)
  from extract_elim[OF h[unfolded url]] url
  show "\<exists>u pre m rest. url = Some u \<and> u = pre @ m @ v @ rest \<and> first_line pre \<and> marker m
          \<and> length v = 11 \<and> (\<forall>c\<in>set v. id_char c) \<and> (rest = [] \<or> \<not> id_char (hd rest))
          \<and> (\<forall>pre' m' rest'. u = pre' @ m' @ rest' \<and> first_line pre' \<and> marker m'
                 \<longrightarrow> length pre' \<le> length pre)"
    by blast
next
  assume "\<exists>u pre m rest. url = Some u \<and> u = pre @ m @ v @ rest \<and> first_line pre \<and> marker m
          \<and> length v = 11 \<and> (\<forall>c\<in>set v. id_char c) \<and> (rest = [] \<or> \<not> id_char (hd rest))
          \<and> (\<forall>pre' m' rest'. u = pre' @ m' @ rest' \<and> first_line pre' \<and> marker m'
                 \<longrightarrow> length pre' \<le> length pre)"
  then obtain u pre m rest where "url = Some u" "u = pre @ m @ v @ rest" "first_line pre" "marker m"
      "length v = 11" "\<forall>c\<in>set v. id_char c" "rest = [] \<or> \<not> id_char (hd rest)"
      "\<forall>pre' m' rest'. u = pre' @ m' @ rest' \<and> first_line pre' \<and> marker m'
                 \<longrightarrow> length pre' \<le> length pre"
    by blast
  then show "getYouTubeVideoId url = Some v" using extract_intro by blast
next
  show "getYouTubeVideoId None = None" by (simp add: getYouTubeVideoId_def)
next
  show "getYouTubeVideoId (Some []) = None" by (simp add: getYouTubeVideoId_def)
qed

theorem getYouTubeVideoId_last_marker_witness:
  "getYouTubeVideoId (Some (lit ''https://youtu.be/dQw4w9WgXcQ?t=5'')) = Some (lit ''dQw4w9WgXcQ'')
   \<and> (\<exists>pre m rest.
         lit ''https://youtu.be/dQw4w9WgXcQ?t=5'' = pre @ m @ lit ''dQw4w9WgXcQ'' @ rest
         \<and> first_line pre \<and> marker m)"
proof -
  have run: "getYouTubeVideoId (Some (lit ''https://youtu.be/dQw4w9WgXcQ?t=5'')) = Some (lit ''dQw4w9WgXcQ'')"
    by (simp add: extractor_eval)
  from getYouTubeVideoId_last_marker
    [of "Some (lit ''https://youtu.be/dQw4w9WgXcQ?t=5'')" "lit ''dQw4w9WgXcQ''"] run
  show ?thesis by blast
qed

text \<open>
  Claim C1 as the specification states it fails: the input below has the shape
  \<open>youtu.be/<id>\<close> with an 11-character id segment that ends at \<open>?\<close>, and the
  extractor returns \<open>null\<close>, because \<open>v/\<close> occurs later in the input and the four
  characters after it are not an id.
\<close>

theorem getYouTubeVideoId_shape_counterexample:
  "lit ''https://youtu.be/dQw4w9WgXcQ?ref=tv/home''
     = lit ''https://'' @ lit ''youtu.be/'' @ lit ''dQw4w9WgXcQ'' @ lit ''?ref=tv/home''
   \<and> length (lit ''dQw4w9WgXcQ'') = 11
   \<and> getYouTubeVideoId (Some (lit ''https://youtu.be/dQw4w9WgXcQ?ref=tv/home'')) = None"
  by (simp add: extractor_eval)

section \<open>Summary generation: success\<close>

text \<open>
  Claim C2. In a ready session, when the generation request completes with a success
  response whose payload is well formed, with \<open>S\<close> the first text part of the first
  candidate: the update-summary call that is issued writes \<open>S\<close> to the document of
  that link, the summary held for the link while that call is pending is \<open>S\<close>, and it
  is still \<open>S\<close> once the run has settled with the call resolved.
\<close>

theorem summary_success_displayed_and_persisted:
  assumes "session st = Some uid"
    and "fetch_result env = Resolved r" and "ok r" and "json r = Resolved result"
    and "payload_text result = Some S"
  shows "store_calls (handleGetSummary appId st linkId linkTitle linkUrl env)
           = [UpdateDoc (linkDocPath appId uid linkId) (JStr S)]
     \<and> (\<exists>st2. at_update (handleGetSummary appId st linkId linkTitle linkUrl env) = Some st2
            \<and> summaries st2 linkId = Some (JStr S))
     \<and> (\<forall>u. updateDoc_result env = Resolved u \<longrightarrow>
            summaries (at_settle (handleGetSummary appId st linkId linkTitle linkUrl env)) linkId
              = Some (JStr S))"
  unfolding handleGetSummary_ready[OF assms(1)] Let_def summary_try_success[OF assms(2-5)]
  by (simp add: summary_finally_def)

theorem summary_success_displayed_and_persisted_witness:
  "session ready_state = Some (lit ''u1'')
   \<and> payload_text (text_payload (lit ''S'')) = Some (lit ''S'')
   \<and> store_calls (handleGetSummary (lit ''app'') ready_state (lit ''x'') (lit ''t'') (lit ''u'')
        (answers (Resolved (ok_response (text_payload (lit ''S'')))) (Resolved ())))
       = [UpdateDoc (linkDocPath (lit ''app'') (lit ''u1'') (lit ''x'')) (JStr (lit ''S''))]
   \<and> summaries (at_settle (handleGetSummary (lit ''app'') ready_state (lit ''x'') (lit ''t'') (lit ''u'')
        (answers (Resolved (ok_response (text_payload (lit ''S'')))) (Resolved ())))) (lit ''x'')
       = Some (JStr (lit ''S''))"
  using summary_success_displayed_and_persisted
    [where st = ready_state and uid = "lit ''u1''" and result = "text_payload (lit ''S'')"
       and S = "lit ''S''" and appId = "lit ''app''" and linkId = "lit ''x''"
       and linkTitle = "lit ''t''" and linkUrl = "lit ''u''"
       and r = "ok_response (text_payload (lit ''S''))"
       and env = "answers (Resolved (ok_response (text_payload (lit ''S'')))) (Resolved ())"]
    session_ready_state payload_text_text_payload
  by (simp add: answers_def ok_response_def)

section \<open>The summarizing flag\<close>

text \<open>
  Claim C3. In a ready session, whatever \<open>fetch\<close>, \<open>response.json()\<close> and
  \<open>updateDoc\<close> answer (well-formed success, malformed payload, HTTP failure, network
  failure, persistence failure after success, a TypeError while the payload is read):
  the flag of the link is true once the synchronous part of the operation has run, it is
  still true while \<open>updateDoc\<close> is pending, and it is false once the operation has
  settled.
\<close>

theorem summarizing_flag_set_then_cleared:
  assumes "session st = Some uid"
  shows "summarizing (at_trigger (handleGetSummary appId st linkId linkTitle linkUrl env)) linkId
     \<and> (\<forall>st2. at_update (handleGetSummary appId st linkId linkTitle linkUrl env) = Some st2
           \<longrightarrow> summarizing st2 linkId)
     \<and> isSummarizing (at_settle (handleGetSummary appId st linkId linkTitle linkUrl env)) linkId
           = Some False
     \<and> \<not> summarizing (at_settle (handleGetSummary appId st linkId linkTitle linkUrl env)) linkId"
proof -
  let ?st1 = "st\<lparr>isSummarizing := (isSummarizing st)(linkId \<mapsto> True),
                  summaries := (summaries st)(linkId \<mapsto> JStr generating)\<rparr>"
  let ?run = "handleGetSummary appId st linkId linkTitle linkUrl env"
  have trig: "at_trigger ?run = ?st1"
    using assms by (simp add: handleGetSummary_def Let_def)
  have upd: "at_update ?run = pending (summary_try appId uid linkId env ?st1)"
    using assms by (simp add: handleGetSummary_def Let_def)
  have "summarizing (at_trigger ?run) linkId"
    unfolding trig by (simp add: summarizing_def)
  moreover have "summarizing st2 linkId" if "at_update ?run = Some st2" for st2
    using pending_summary_try_flag[of appId uid linkId env ?st1 st2] that
    unfolding upd by (simp add: summarizing_def)
  moreover have "isSummarizing (at_settle ?run) linkId = Some False"
    using assms by (simp add: handleGetSummary_def Let_def summary_finally_def)
  ultimately show ?thesis by (simp add: summarizing_def)
qed

theorem summarizing_flag_set_then_cleared_witness:
  "session ready_state = Some (lit ''u1'')
   \<and> summarizing (at_trigger (handleGetSummary (lit ''app'') ready_state (lit ''x'') (lit ''t'') (lit ''u'')
        (answers (Rejected (lit ''Failed to fetch'')) (Resolved ())))) (lit ''x'')
   \<and> isSummarizing (at_settle (handleGetSummary (lit ''app'') ready_state (lit ''x'') (lit ''t'') (lit ''u'')
        (answers (Rejected (lit ''Failed to fetch'')) (Resolved ())))) (lit ''x'') = Some False"
  using summarizing_flag_set_then_cleared
    [where st = ready_state and uid = "lit ''u1''" and appId = "lit ''app''" and linkId = "lit ''x''"
       and linkTitle = "lit ''t''" and linkUrl = "lit ''u''"
       and env = "answers (Rejected (lit ''Failed to fetch'')) (Resolved ())"]
    session_ready_state
  by simp

section \<open>Deleting a link\<close>

text \<open>
  Claim C4, as amended. After a successful delete of a link in a ready session, one
  delete call has been issued for the document of that link, the summary cached for it
  is gone from the state and no summary block renders for it; the map of summarizing
  flags is left as it was.
\<close>

theorem delete_discards_summary_only:
  assumes "session st = Some uid"
  shows "snd (handleDeleteLink appId st linkId (Resolved u)) = [DeleteDoc (linkDocPath appId uid linkId)]
     \<and> summaries (fst (handleDeleteLink appId st linkId (Resolved u))) linkId = None
     \<and> summary_block (fst (handleDeleteLink appId st linkId (Resolved u))) linkId = None
     \<and> isSummarizing (fst (handleDeleteLink appId st linkId (Resolved u))) = isSummarizing st"
  using assms by (simp add: handleDeleteLink_def Let_def summary_block_def summary_of_def)

theorem delete_discards_summary_only_witness:
  "session (ready_state\<lparr>summaries := [lit ''x'' \<mapsto> JStr (lit ''S'')]\<rparr>) = Some (lit ''u1'')
   \<and> summaries (fst (handleDeleteLink (lit ''app'')
        (ready_state\<lparr>summaries := [lit ''x'' \<mapsto> JStr (lit ''S'')]\<rparr>) (lit ''x'') (Resolved ())))
        (lit ''x'') = None"
proof -
  have s: "session (ready_state\<lparr>summaries := [lit ''x'' \<mapsto> JStr (lit ''S'')]\<rparr>) = Some (lit ''u1'')"
    by (simp add: session_def ready_state_def initial_state_def lit_def)
  from delete_discards_summary_only[OF s, of "lit ''app''" "lit ''x''" "()"] s
  show ?thesis by simp
qed

text \<open>
  Claim C4 as the specification states it fails: after a summary run for a link has
  settled and the link is then deleted with success, the summarizing flag of the link is
  still present in the state (with the value false).
\<close>

theorem delete_keeps_summarizing_counterexample:
  "snd (handleDeleteLink (lit ''app'')
      (at_settle (handleGetSummary (lit ''app'') ready_state (lit ''x'') (lit ''t'') (lit ''u'')
         (answers (Resolved (ok_response (text_payload (lit ''S'')))) (Resolved ()))))
      (lit ''x'') (Resolved ()))
     = [DeleteDoc (linkDocPath (lit ''app'') (lit ''u1'') (lit ''x''))]
   \<and> isSummarizing (fst (handleDeleteLink (lit ''app'')
      (at_settle (handleGetSummary (lit ''app'') ready_state (lit ''x'') (lit ''t'') (lit ''u'')
         (answers (Resolved (ok_response (text_payload (lit ''S'')))) (Resolved ()))))
      (lit ''x'') (Resolved ()))) (lit ''x'') = Some False"
proof -
  let ?st = "at_settle (handleGetSummary (lit ''app'') ready_state (lit ''x'') (lit ''t'') (lit ''u'')
         (answers (Resolved (ok_response (text_payload (lit ''S'')))) (Resolved ())))"
  have flag: "isSummarizing ?st (lit ''x'') = Some False"
    by (simp add: handleGetSummary_ready[OF session_ready_state] Let_def summary_finally_def)
  have s: "session ?st = Some (lit ''u1'')"
    using session_ready_state by (simp only: handleGetSummary_session)
  show ?thesis using s flag by (simp add: handleDeleteLink_def Let_def)
qed

section \<open>Summary generation: the persistence call fails\<close>

text \<open>
  Claim C5, as amended. In a ready session, when generation succeeds with text \<open>S\<close>
  and the update-summary call is rejected with message \<open>m\<close>: \<open>S\<close> is the summary
  held for the link while the call is pending, and once the run has settled the summary
  held for the link is \<open>Error: \<close> followed by \<open>m\<close> (by \<open>Failed to get summary.\<close>
  when \<open>m\<close> is empty). The summaries of the other links and the global error text are
  as they were before the run; the one store call issued is the update with \<open>S\<close>.
\<close>

theorem persistence_failure_replaces_summary:
  assumes "session st = Some uid"
    and "fetch_result env = Resolved r" and "ok r" and "json r = Resolved result"
    and "payload_text result = Some S"
    and "updateDoc_result env = Rejected m"
  shows "(\<exists>st2. at_update (handleGetSummary appId st linkId linkTitle linkUrl env) = Some st2
            \<and> summaries st2 linkId = Some (JStr S))
     \<and> summaries (at_settle (handleGetSummary appId st linkId linkTitle linkUrl env)) linkId
          = Some (JStr (lit ''Error: '' @ (if m \<noteq> [] then m else lit ''Failed to get summary.'')))
     \<and> (\<forall>other. other \<noteq> linkId \<longrightarrow>
           summaries (at_settle (handleGetSummary appId st linkId linkTitle linkUrl env)) other
             = summaries st other)
     \<and> error (at_settle (handleGetSummary appId st linkId linkTitle linkUrl env)) = error st
     \<and> store_calls (handleGetSummary appId st linkId linkTitle linkUrl env)
          = [UpdateDoc (linkDocPath appId uid linkId) (JStr S)]"
  unfolding handleGetSummary_ready[OF assms(1)] Let_def summary_try_success[OF assms(2-5)]
  by (simp add: summary_finally_def summary_catch_def message_def assms(6))

theorem persistence_failure_replaces_summary_witness:
  "session ready_state = Some (lit ''u1'')
   \<and> payload_text (text_payload (lit ''S'')) = Some (lit ''S'')
   \<and> summaries (at_settle (handleGetSummary (lit ''app'') ready_state (lit ''x'') (lit ''t'') (lit ''u'')
        (answers (Resolved (ok_response (text_payload (lit ''S'')))) (Rejected (lit ''denied''))))) (lit ''x'')
       = Some (JStr (lit ''Error: '' @ lit ''denied''))"
  using persistence_failure_replaces_summary
    [where st = ready_state and uid = "lit ''u1''" and result = "text_payload (lit ''S'')"
       and S = "lit ''S''" and appId = "lit ''app''" and linkId = "lit ''x''"
       and linkTitle = "lit ''t''" and linkUrl = "lit ''u''" and m = "lit ''denied''"
       and r = "ok_response (text_payload (lit ''S''))"
       and env = "answers (Resolved (ok_response (text_payload (lit ''S'')))) (Rejected (lit ''denied''))"]
    session_ready_state payload_text_text_payload
  by (simp add: answers_def ok_response_def lit_def)

text \<open>
  Claim C5 as the specification states it fails: the \<open>await updateDoc\<close> stands inside
  the \<open>try\<close> block, so a rejected call runs the \<open>catch\<close> block, which overwrites the
  summary that was shown while the call was pending.
\<close>

theorem persistence_failure_counterexample:
  "map_option (\<lambda>st. summaries st (lit ''x''))
      (at_update (handleGetSummary (lit ''app'') ready_state (lit ''x'') (lit ''t'') (lit ''u'')
        (answers (Resolved (ok_response (text_payload (lit ''S'')))) (Rejected (lit ''denied'')))))
     = Some (Some (JStr (lit ''S'')))
   \<and> summaries (at_settle (handleGetSummary (lit ''app'') ready_state (lit ''x'') (lit ''t'') (lit ''u'')
        (answers (Resolved (ok_response (text_payload (lit ''S'')))) (Rejected (lit ''denied''))))) (lit ''x'')
     \<noteq> Some (JStr (lit ''S''))"
proof -
  have t: "summary_try (lit ''app'') (lit ''u1'') (lit ''x'')
        (answers (Resolved (ok_response (text_payload (lit ''S'')))) (Rejected (lit ''denied''))) st1 =
     \<lparr>thrown = Some (Error (lit ''denied'')),
      left = st1\<lparr>summaries := (summaries st1)(lit ''x'' \<mapsto> JStr (lit ''S''))\<rparr>,
      pending = Some (st1\<lparr>summaries := (summaries st1)(lit ''x'' \<mapsto> JStr (lit ''S''))\<rparr>),
      issued = [UpdateDoc (linkDocPath (lit ''app'') (lit ''u1'') (lit ''x'')) (JStr (lit ''S''))]\<rparr>" for st1
    using summary_try_success[where env = "answers (Resolved (ok_response (text_payload (lit ''S'')))) (Rejected (lit ''denied''))"
        and r = "ok_response (text_payload (lit ''S''))", OF _ _ _ payload_text_text_payload]
    by (simp add: answers_def ok_response_def)
  show ?thesis
    unfolding handleGetSummary_ready[OF session_ready_state] Let_def t
    by (simp add: summary_finally_def summary_catch_def message_def lit_def)
qed

section \<open>Adding a link: validation\<close>

text \<open>
  Claim C6, as amended. The handler tests the url and the title after \<open>trim()\<close>. When
  the url or the title is empty or only white space, or the extractor returns \<open>null\<close>
  for the url, no store call is issued, an error text is set and the form fields stay as
  they are; the text is the required-fields message when a field is blank, and the
  invalid-url message when the session is ready, no field is blank and the extractor
  returns \<open>null\<close>. When the session is ready, neither field is blank and the extractor
  returns an id, one creation call is issued, on the collection of the user, with the
  url, the title, the id, the user identifier and a \<open>null\<close> summary.
\<close>

theorem add_link_validation:
  "(trim (newLinkUrl st) = [] \<or> trim (newLinkTitle st) = []
      \<or> getYouTubeVideoId (Some (newLinkUrl st)) = None
    \<longrightarrow> snd (handleAddLink appId st r) = []
        \<and> error (fst (handleAddLink appId st r))
            \<in> {lit ''Both URL and Title are required.'',
               lit ''Database not ready or user not authenticated.'',
               lit ''Invalid YouTube URL. Please enter a valid YouTube video link.''}
        \<and> newLinkUrl (fst (handleAddLink appId st r)) = newLinkUrl st
        \<and> newLinkTitle (fst (handleAddLink appId st r)) = newLinkTitle st)
   \<and> (trim (newLinkUrl st) = [] \<or> trim (newLinkTitle st) = []
    \<longrightarrow> error (fst (handleAddLink appId st r)) = lit ''Both URL and Title are required.'')
   \<and> (session st = Some uid \<and> trim (newLinkUrl st) \<noteq> [] \<and> trim (newLinkTitle st) \<noteq> []
        \<and> getYouTubeVideoId (Some (newLinkUrl st)) = None
    \<longrightarrow> error (fst (handleAddLink appId st r))
          = lit ''Invalid YouTube URL. Please enter a valid YouTube video link.'')
   \<and> (session st = Some uid \<and> trim (newLinkUrl st) \<noteq> [] \<and> trim (newLinkTitle st) \<noteq> []
        \<and> getYouTubeVideoId (Some (newLinkUrl st)) = Some v
    \<longrightarrow> snd (handleAddLink appId st r)
          = [AddDoc (linksCollectionPath appId uid)
               (NewLink (newLinkUrl st) (newLinkTitle st) v uid JNull)])"
proof (intro conjI impI)
  assume h: "session st = Some uid \<and> trim (newLinkUrl st) \<noteq> [] \<and> trim (newLinkTitle st) \<noteq> []
        \<and> getYouTubeVideoId (Some (newLinkUrl st)) = Some v"
  then have "v \<noteq> []" using getYouTubeVideoId_length[of "Some (newLinkUrl st)" v] by auto
  with h show "snd (handleAddLink appId st r)
          = [AddDoc (linksCollectionPath appId uid)
               (NewLink (newLinkUrl st) (newLinkTitle st) v uid JNull)]"
    by (simp add: handleAddLink_def Let_def split: settled.split)
qed (auto simp: handleAddLink_def Let_def split: option.splits settled.splits)

theorem add_link_validation_witness:
  "session (form_state ''https://youtu.be/dQw4w9WgXcQ'' ''Rick'') = Some (lit ''u1'')
   \<and> trim (newLinkUrl (form_state ''https://youtu.be/dQw4w9WgXcQ'' ''Rick'')) \<noteq> []
   \<and> trim (newLinkTitle (form_state ''https://youtu.be/dQw4w9WgXcQ'' ''Rick'')) \<noteq> []
   \<and> snd (handleAddLink (lit ''app'') (form_state ''https://youtu.be/dQw4w9WgXcQ'' ''Rick'') (Resolved ()))
       = [AddDoc (linksCollectionPath (lit ''app'') (lit ''u1''))
            (NewLink (lit ''https://youtu.be/dQw4w9WgXcQ'') (lit ''Rick'') (lit ''dQw4w9WgXcQ'')
               (lit ''u1'') JNull)]
   \<and> snd (handleAddLink (lit ''app'') (form_state ''https://example.com/video'' ''Rick'') (Resolved ()))
       = []"
proof -
  have none: "getYouTubeVideoId (Some (lit ''https://example.com/video'')) = None"
    by (simp add: extractor_eval)
  from add_link_validation
    [where st = "form_state ''https://youtu.be/dQw4w9WgXcQ'' ''Rick''" and uid = "lit ''u1''"
       and v = "lit ''dQw4w9WgXcQ''" and appId = "lit ''app''" and r = "Resolved ()"]
    add_link_validation
    [where st = "form_state ''https://example.com/video'' ''Rick''" and appId = "lit ''app''"
       and r = "Resolved ()"]
  show ?thesis
    using session_form_state extract_sample trim_samples none
    by (simp add: form_state_fields)
qed

text \<open>
  Claim C6 as the specification states it fails: with a ready session, a url the
  extractor accepts and a title that is a single space (so neither field is empty), no
  creation call is issued.
\<close>

theorem add_link_blank_title_counterexample:
  "newLinkTitle (form_state ''https://youtu.be/dQw4w9WgXcQ'' '' '') \<noteq> []
   \<and> newLinkUrl (form_state ''https://youtu.be/dQw4w9WgXcQ'' '' '') \<noteq> []
   \<and> getYouTubeVideoId (Some (newLinkUrl (form_state ''https://youtu.be/dQw4w9WgXcQ'' '' '')))
       = Some (lit ''dQw4w9WgXcQ'')
   \<and> session (form_state ''https://youtu.be/dQw4w9WgXcQ'' '' '') = Some (lit ''u1'')
   \<and> snd (handleAddLink (lit ''app'') (form_state ''https://youtu.be/dQw4w9WgXcQ'' '' '') (Resolved ()))
       = []"
  using session_form_state extract_sample trim_samples
  by (simp add: form_state_fields handleAddLink_def) (simp add: lit_def)

section \<open>Adding a link: after the creation call\<close>

text \<open>
  Claim C7. When the creation call is issued (ready session, no blank field, a url the
  extractor accepts): if the call resolves, the url and title fields are empty, the
  add-form is closed and no error text is set; if the call is rejected, the error text
  is the add-failure message and the url, the title and the add-form are as the user
  left them.
\<close>

theorem add_link_outcome:
  assumes "session st = Some uid"
    and "trim (newLinkUrl st) \<noteq> []" and "trim (newLinkTitle st) \<noteq> []"
    and "getYouTubeVideoId (Some (newLinkUrl st)) = Some v"
  shows "newLinkUrl (fst (handleAddLink appId st (Resolved u))) = []
     \<and> newLinkTitle (fst (handleAddLink appId st (Resolved u))) = []
     \<and> \<not> showAddForm (fst (handleAddLink appId st (Resolved u)))
     \<and> error (fst (handleAddLink appId st (Resolved u))) = []
     \<and> error (fst (handleAddLink appId st (Rejected m))) = lit ''Failed to add link. Please try again.''
     \<and> newLinkUrl (fst (handleAddLink appId st (Rejected m))) = newLinkUrl st
     \<and> newLinkTitle (fst (handleAddLink appId st (Rejected m))) = newLinkTitle st
     \<and> showAddForm (fst (handleAddLink appId st (Rejected m))) = showAddForm st"
proof -
  have "v \<noteq> []" using getYouTubeVideoId_length[OF assms(4)] by auto
  then show ?thesis using assms by (simp add: handleAddLink_def Let_def)
qed

theorem add_link_outcome_witness:
  "session (form_state ''https://youtu.be/dQw4w9WgXcQ'' ''Rick'') = Some (lit ''u1'')
   \<and> newLinkUrl (fst (handleAddLink (lit ''app'')
        (form_state ''https://youtu.be/dQw4w9WgXcQ'' ''Rick'') (Resolved ()))) = []
   \<and> \<not> showAddForm (fst (handleAddLink (lit ''app'')
        (form_state ''https://youtu.be/dQw4w9WgXcQ'' ''Rick'') (Resolved ())))
   \<and> newLinkUrl (fst (handleAddLink (lit ''app'')
        (form_state ''https://youtu.be/dQw4w9WgXcQ'' ''Rick'') (Rejected (lit ''offline''))))
       = lit ''https://youtu.be/dQw4w9WgXcQ''
   \<and> error (fst (handleAddLink (lit ''app'')
        (form_state ''https://youtu.be/dQw4w9WgXcQ'' ''Rick'') (Rejected (lit ''offline''))))
       = lit ''Failed to add link. Please try again.''"
  using add_link_outcome
    [where st = "form_state ''https://youtu.be/dQw4w9WgXcQ'' ''Rick''" and uid = "lit ''u1''"
       and v = "lit ''dQw4w9WgXcQ''" and appId = "lit ''app''" and u = "()" and m = "lit ''offline''"]
    session_form_state extract_sample trim_samples
  by (simp add: form_state_fields)

section \<open>Summary generation: HTTP failure\<close>

text \<open>
  Claim C8. In a ready session, when \<open>fetch\<close> resolves with a response that is not
  \<open>ok\<close> (whether or not its body parses): the summary held and rendered for the link
  once the run has settled is a string that begins with \<open>Error:\<close>, the summarize
  button is enabled and carries \<open>Get Summary\<close>, the label it has while the link holds
  no summary (and not \<open>Regenerate Summary\<close>, its label for a link that holds one), and
  no store call is issued.
\<close>

theorem http_failure_shows_error:
  assumes "session st = Some uid"
    and "fetch_result env = Resolved r" and "\<not> ok r"
  shows "(\<exists>text. summary_of (at_settle (handleGetSummary appId st linkId linkTitle linkUrl env)) linkId
             = JStr (lit ''Error: '' @ text))
     \<and> (\<exists>text. summary_block (at_settle (handleGetSummary appId st linkId linkTitle linkUrl env)) linkId
             = Some (JStr text) \<and> startsWith text (lit ''Error:''))
     \<and> trigger_label (at_settle (handleGetSummary appId st linkId linkTitle linkUrl env)) linkId
          = Inr (lit ''Get Summary'')
     \<and> \<not> trigger_disabled (at_settle (handleGetSummary appId st linkId linkTitle linkUrl env)) linkId
     \<and> store_calls (handleGetSummary appId st linkId linkTitle linkUrl env) = []"
proof -
  let ?st1 = "st\<lparr>isSummarizing := (isSummarizing st)(linkId \<mapsto> True),
                  summaries := (summaries st)(linkId \<mapsto> JStr generating)\<rparr>"
  from summary_try_http_failure[OF assms(2,3)] obtain e where
    t: "summary_try appId uid linkId env ?st1 = throws e ?st1" by blast
  let ?text = "if message env e \<noteq> [] then message env e else lit ''Failed to get summary.''"
  let ?run = "handleGetSummary appId st linkId linkTitle linkUrl env"
  have settle: "at_settle ?run = summary_finally linkId (summary_catch env linkId e ?st1)"
    and calls: "store_calls ?run = []"
    unfolding handleGetSummary_ready[OF assms(1)] Let_def t by (simp_all add: throws_def)
  have s: "summary_of (at_settle ?run) linkId = JStr (lit ''Error: '' @ ?text)"
    unfolding settle by (simp add: summary_of_def summary_finally_def summary_catch_def)
  have f: "\<not> summarizing (at_settle ?run) linkId"
    unfolding settle by (simp add: summarizing_def summary_finally_def summary_catch_def)
  have tr: "truthy (JStr (lit ''Error: '' @ ?text))" by (simp add: lit_def)
  have "summary_block (at_settle ?run) linkId = Some (JStr (lit ''Error: '' @ ?text))"
    unfolding summary_block_def s using tr by simp
  moreover have "trigger_label (at_settle ?run) linkId = Inr (lit ''Get Summary'')"
    unfolding trigger_label_def s using f tr Error_not_generating Error_startsWith by simp
  ultimately show ?thesis
    using s f calls Error_startsWith unfolding trigger_disabled_def by blast
qed

theorem http_failure_shows_error_witness:
  "session ready_state = Some (lit ''u1'')
   \<and> trigger_label (at_settle (handleGetSummary (lit ''app'') ready_state (lit ''x'') (lit ''t'') (lit ''u'')
        (answers (Resolved \<lparr>ok = False, status = 500, json = Rejected (lit ''Unexpected token'')\<rparr>)
           (Resolved ())))) (lit ''x'')
       = Inr (lit ''Get Summary'')
   \<and> store_calls (handleGetSummary (lit ''app'') ready_state (lit ''x'') (lit ''t'') (lit ''u'')
        (answers (Resolved \<lparr>ok = False, status = 500, json = Rejected (lit ''Unexpected token'')\<rparr>)
           (Resolved ()))) = []"
  using http_failure_shows_error
    [where st = ready_state and uid = "lit ''u1''" and appId = "lit ''app''" and linkId = "lit ''x''"
       and linkTitle = "lit ''t''" and linkUrl = "lit ''u''"
       and r = "\<lparr>ok = False, status = 500, json = Rejected (lit ''Unexpected token'')\<rparr>"
       and env = "answers (Resolved \<lparr>ok = False, status = 500, json = Rejected (lit ''Unexpected token'')\<rparr>) (Resolved ())"]
    session_ready_state
  by (simp add: answers_def)

section \<open>Summary generation: malformed payload\<close>




section \<open>One collection path\<close>

text \<open>
  Claim C10. In a ready session the live subscription queries the collection
  \<open>artifacts/{appId}/users/{userId}/laterTubeLinks\<close>, ordered by \<open>addedAt\<close>
  descending; a creation call, when one is issued, adds to that same collection; the
  delete call and the update-summary call, when one is issued, address the document
  named by the link id under that same collection path, and for a link id without \<open>/\<close>
  the collection of that document is the subscribed collection.
\<close>

theorem same_collection_path:
  assumes "session st = Some uid" and "isAuthReady st"
  shows "snd (links_effect appId st)
           = Some (OrderedQuery (linksCollectionPath appId uid) (lit ''addedAt'') (lit ''desc''))
     \<and> (snd (handleAddLink appId st r1) = []
          \<or> (\<exists>v. snd (handleAddLink appId st r1)
                = [AddDoc (linksCollectionPath appId uid)
                     (NewLink (newLinkUrl st) (newLinkTitle st) v uid JNull)]))
     \<and> snd (handleDeleteLink appId st linkId r2)
           = [DeleteDoc (linksCollectionPath appId uid @ lit ''/'' @ linkId)]
     \<and> (store_calls (handleGetSummary appId st linkId linkTitle linkUrl env) = []
          \<or> (\<exists>v. store_calls (handleGetSummary appId st linkId linkTitle linkUrl env)
                = [UpdateDoc (linksCollectionPath appId uid @ lit ''/'' @ linkId) v]))
     \<and> (47 \<notin> set linkId \<longrightarrow>
           parent_collection (linksCollectionPath appId uid @ lit ''/'' @ linkId)
             = linksCollectionPath appId uid)"
proof (intro conjI)
  show "snd (links_effect appId st)
           = Some (OrderedQuery (linksCollectionPath appId uid) (lit ''addedAt'') (lit ''desc''))"
    using assms by (simp add: links_effect_def)
  show "snd (handleAddLink appId st r1) = []
          \<or> (\<exists>v. snd (handleAddLink appId st r1)
                = [AddDoc (linksCollectionPath appId uid)
                     (NewLink (newLinkUrl st) (newLinkTitle st) v uid JNull)])"
    using assms(1) by (auto simp: handleAddLink_def Let_def split: option.splits settled.splits)
  show "snd (handleDeleteLink appId st linkId r2)
           = [DeleteDoc (linksCollectionPath appId uid @ lit ''/'' @ linkId)]"
    using assms(1) by (simp add: handleDeleteLink_def Let_def doc_path_in_collection split: settled.split)
  show "store_calls (handleGetSummary appId st linkId linkTitle linkUrl env) = []
          \<or> (\<exists>v. store_calls (handleGetSummary appId st linkId linkTitle linkUrl env)
                = [UpdateDoc (linksCollectionPath appId uid @ lit ''/'' @ linkId) v])"
    unfolding handleGetSummary_ready[OF assms(1)] Let_def doc_path_in_collection[symmetric]
    using store_calls_summary by simp
  show "47 \<notin> set linkId \<longrightarrow>
           parent_collection (linksCollectionPath appId uid @ lit ''/'' @ linkId)
             = linksCollectionPath appId uid"
    using parent_collection_doc by blast
qed

theorem same_collection_path_witness:
  "session ready_state = Some (lit ''u1'') \<and> isAuthReady ready_state
   \<and> snd (links_effect (lit ''app'') ready_state)
       = Some (OrderedQuery (linksCollectionPath (lit ''app'') (lit ''u1'')) (lit ''addedAt'') (lit ''desc''))
   \<and> snd (handleDeleteLink (lit ''app'') ready_state (lit ''x'') (Resolved ()))
       = [DeleteDoc (linksCollectionPath (lit ''app'') (lit ''u1'') @ lit ''/'' @ lit ''x'')]
   \<and> parent_collection (linksCollectionPath (lit ''app'') (lit ''u1'') @ lit ''/'' @ lit ''x'')
       = linksCollectionPath (lit ''app'') (lit ''u1'')"
proof -
  have a: "isAuthReady ready_state" by (simp add: ready_state_def)
  have x: "47 \<notin> set (lit ''x'')" by (simp add: lit_def)
  from same_collection_path[OF session_ready_state a, of "lit ''app''" "Resolved ()" "lit ''x''" "Resolved ()"]
    session_ready_state a x
  show ?thesis by simp
qed

end
